theory Spec2Isabelle
  imports Main "HOL-Library.Char_ord" "HOL-Library.List_Lexorder" "HOL-Library.AList"
begin

section \<open>Go strings\<close>

text \<open>
  A Go string is a sequence of bytes, here a \<^typ>\<open>string\<close>. The order on strings that
  \<open>sort.Strings\<close> uses is the bytewise lexicographic one, which is the order of
  \<open>Char_ord\<close> and \<open>List_Lexorder\<close>.

  \<open>strings.TrimSpace\<close> removes, at both ends, every rune for which \<open>unicode.IsSpace\<close>
  holds. \<open>spaceRunes\<close> lists the UTF-8 encodings of these runes: the six ASCII ones,
  U+0085, U+00A0, U+1680, U+2000 to U+200A, U+2028, U+2029, U+202F, U+205F and U+3000.
\<close>

definition spaceRunes :: "string list" where
  "spaceRunes =
     [[CHR 0x09], [CHR 0x0A], [CHR 0x0B], [CHR 0x0C], [CHR 0x0D], [CHR 0x20],
      [CHR 0xC2, CHR 0x85], [CHR 0xC2, CHR 0xA0],
      [CHR 0xE1, CHR 0x9A, CHR 0x80],
      [CHR 0xE2, CHR 0x80, CHR 0x80], [CHR 0xE2, CHR 0x80, CHR 0x81],
      [CHR 0xE2, CHR 0x80, CHR 0x82], [CHR 0xE2, CHR 0x80, CHR 0x83],
      [CHR 0xE2, CHR 0x80, CHR 0x84], [CHR 0xE2, CHR 0x80, CHR 0x85],
      [CHR 0xE2, CHR 0x80, CHR 0x86], [CHR 0xE2, CHR 0x80, CHR 0x87],
      [CHR 0xE2, CHR 0x80, CHR 0x88], [CHR 0xE2, CHR 0x80, CHR 0x89],
      [CHR 0xE2, CHR 0x80, CHR 0x8A],
      [CHR 0xE2, CHR 0x80, CHR 0xA8], [CHR 0xE2, CHR 0x80, CHR 0xA9],
      [CHR 0xE2, CHR 0x80, CHR 0xAF], [CHR 0xE2, CHR 0x81, CHR 0x9F],
      [CHR 0xE3, CHR 0x80, CHR 0x80]]"

text \<open>\<open>hasPrefix w s\<close> is \<open>strings.HasPrefix(s, w)\<close>.\<close>

definition hasPrefix :: "string \<Rightarrow> string \<Rightarrow> bool" where
  "hasPrefix w s = (take (length w) s = w)"

text \<open>
  \<open>dropRunes ws s\<close> removes from the front of \<open>s\<close> every leading occurrence of one of the
  byte sequences \<open>ws\<close>: the loop of \<open>strings.TrimLeftFunc\<close>, rune by rune.
\<close>

function dropRunes :: "string list \<Rightarrow> string \<Rightarrow> string" where
  "dropRunes ws s =
     (case find (\<lambda>w. w \<noteq> [] \<and> hasPrefix w s) ws of
        None \<Rightarrow> s
      | Some w \<Rightarrow> dropRunes ws (drop (length w) s))"
  by pat_completeness auto
termination
proof (relation "measure (\<lambda>(ws, s). length s)")
  show "wf (measure (\<lambda>(ws, s). length s))" by simp
next
  fix ws s w
  assume "find (\<lambda>w. w \<noteq> [] \<and> hasPrefix w s) ws = Some w"
  then have "w \<noteq> []" and "take (length w) s = w"
    by (auto simp: find_Some_iff hasPrefix_def)
  then have "s \<noteq> []" by auto
  with \<open>w \<noteq> []\<close> show "((ws, drop (length w) s), (ws, s)) \<in> measure (\<lambda>(ws, s). length s)"
    by simp
qed

declare dropRunes.simps [simp del]

definition TrimSpace :: "string \<Rightarrow> string" where
  "TrimSpace s = rev (dropRunes (map rev spaceRunes) (rev (dropRunes spaceRunes s)))"

text \<open>
  \<open>strings.ToUpper\<close> and \<open>strings.ToLower\<close> map each rune of the string by
  \<open>unicode.ToUpper\<close> and \<open>unicode.ToLower\<close>. On ASCII these are the maps of the letters.
  Beyond ASCII, two runes have an ASCII upper case, U+0131 (the bytes C4 B1), which gives
  \<open>I\<close>, and U+017F (C5 BF), which gives \<open>S\<close>; two have an ASCII lower case, U+0130 (C4 B0),
  which gives \<open>i\<close>, and U+212A (E2 84 AA), which gives \<open>k\<close>. These byte pairs and this triple
  start with a leading byte of UTF-8, so they are read as these runes wherever they stand.
  Every other rune beyond ASCII, and every byte that is not UTF-8, is mapped by Go to a
  rune beyond ASCII; the model leaves its bytes as they are, so that the result has a byte
  above 0x7F in its place as Go's has, and equals a given ASCII string exactly when Go's
  does.
\<close>

definition upperByte :: "char \<Rightarrow> char" where
  "upperByte c = (if CHR ''a'' \<le> c \<and> c \<le> CHR ''z'' then char_of (of_char c - (32::nat)) else c)"

definition lowerByte :: "char \<Rightarrow> char" where
  "lowerByte c = (if CHR ''A'' \<le> c \<and> c \<le> CHR ''Z'' then char_of (of_char c + (32::nat)) else c)"

fun ToUpper :: "string \<Rightarrow> string" where
  "ToUpper (c # d # cs) =
     (if c = CHR 0xC4 \<and> d = CHR 0xB1 then CHR ''I'' # ToUpper cs
      else if c = CHR 0xC5 \<and> d = CHR 0xBF then CHR ''S'' # ToUpper cs
      else upperByte c # ToUpper (d # cs))"
| "ToUpper [c] = [upperByte c]"
| "ToUpper [] = []"

fun ToLower :: "string \<Rightarrow> string" where
  "ToLower (c # d # e # cs) =
     (if c = CHR 0xC4 \<and> d = CHR 0xB0 then CHR ''i'' # ToLower (e # cs)
      else if c = CHR 0xE2 \<and> d = CHR 0x84 \<and> e = CHR 0xAA then CHR ''k'' # ToLower cs
      else lowerByte c # ToLower (d # e # cs))"
| "ToLower [c, d] =
     (if c = CHR 0xC4 \<and> d = CHR 0xB0 then [CHR ''i''] else [lowerByte c, lowerByte d])"
| "ToLower [c] = [lowerByte c]"
| "ToLower [] = []"

definition hasSuffix :: "string \<Rightarrow> string \<Rightarrow> bool" where
  "hasSuffix w s = (length w \<le> length s \<and> drop (length s - length w) s = w)"

definition TrimSuffix :: "string \<Rightarrow> string \<Rightarrow> string" where
  "TrimSuffix s w = (if hasSuffix w s then take (length s - length w) s else s)"

text \<open>\<open>splitOn c s\<close> is \<open>strings.Split(s, sep)\<close> for a separator of the single byte \<open>c\<close>.\<close>

fun splitOn :: "char \<Rightarrow> string \<Rightarrow> string list" where
  "splitOn c [] = [[]]"
| "splitOn c (x # xs) =
     (if x = c then [] # splitOn c xs
      else (case splitOn c xs of [] \<Rightarrow> [[x]] | p # ps \<Rightarrow> (x # p) # ps))"

section \<open>Levels and formats\<close>

datatype Level = DEBUG | INFO | WARN | ERROR

text \<open>The value of the \<open>iota\<close> constant behind each level.\<close>

fun rank :: "Level \<Rightarrow> nat" where
  "rank DEBUG = 0"
| "rank INFO = 1"
| "rank WARN = 2"
| "rank ERROR = 3"

fun Level_String :: "Level \<Rightarrow> string" where
  "Level_String DEBUG = ''DEBUG''"
| "Level_String INFO = ''INFO''"
| "Level_String WARN = ''WARN''"
| "Level_String ERROR = ''ERROR''"

text \<open>
  The errors of the configuration functions. Each carries the string that the message of the
  Go error quotes with \<open>%q\<close>.
\<close>

datatype error =
    UnknownLevel string
  | UnknownFmt string
  | UnknownOutputPart string
  | OutputFileEmpty
  | SetLogFileEmpty
  | Joined error error

definition parseLevel :: "string \<Rightarrow> Level \<times> error option" where
  "parseLevel s =
     (let u = ToUpper (TrimSpace s) in
      if u = ''DEBUG'' then (DEBUG, None)
      else if u = ''INFO'' \<or> u = [] then (INFO, None)
      else if u = ''WARN'' \<or> u = ''WARNING'' then (WARN, None)
      else if u = ''ERROR'' then (ERROR, None)
      else (INFO, Some (UnknownLevel s)))"

datatype Format = JSON | TEXT

definition parseFormat :: "string \<Rightarrow> Format \<times> error option" where
  "parseFormat s =
     (let u = ToLower (TrimSpace s) in
      if u = [] \<or> u = ''json'' then (JSON, None)
      else if u = ''text'' \<or> u = ''plain'' then (TEXT, None)
      else (JSON, Some (UnknownFmt s)))"

section \<open>Configuration and the sink\<close>

datatype outputDest = outStdout | outStderr | outFile

text \<open>
  The Go map \<open>map[outputDest]bool\<close> only ever stores \<open>true\<close>; it is the set of its keys,
  and \<open>out[d]\<close> reads as \<open>d \<in> out\<close>.
\<close>

text \<open>The loop of \<open>parseOutput\<close> over the parts of the specification; an unknown part returns.\<close>

fun parseParts :: "string list \<Rightarrow> outputDest set \<Rightarrow> error + outputDest set" where
  "parseParts [] out = Inr out"
| "parseParts (p # ps) out =
     (let t = ToLower (TrimSpace p) in
      if t = ''stdout'' then parseParts ps (insert outStdout out)
      else if t = ''stderr'' then parseParts ps (insert outStderr out)
      else if t = ''file'' then parseParts ps (insert outFile out)
      else if t = [] then parseParts ps out
      else Inl (UnknownOutputPart p))"

definition parseOutput :: "string \<Rightarrow> string \<Rightarrow> outputDest set \<times> error option" where
  "parseOutput outputEnv fileEnv =
     (let s = TrimSpace outputEnv in
      if s = [] then
        (if TrimSpace fileEnv \<noteq> [] then ({outFile}, None) else ({outStderr}, None))
      else
        (case parseParts (splitOn (CHR ''+'') s) {} of
           Inl e \<Rightarrow> ({outStderr}, Some e)
         | Inr out \<Rightarrow>
             if outFile \<in> out \<and> TrimSpace fileEnv = [] then (out, Some OutputFileEmpty)
             else (out, None)))"

text \<open>
  A writer is one of the two streams of the process or an open file, named by its path.
  \<open>io.MultiWriter\<close> of a list of writers is the list. The field \<open>closer\<close> holds the path of
  the file that the stored closure closes. The fields \<open>output\<close> and \<open>file\<close> of the Go struct
  are \<open>outputs\<close> and \<open>filePath\<close> here, since Isabelle reserves their names.
\<close>

datatype writer = Stdout | Stderr | FileWriter string

record config =
  level :: Level
  fmt :: Format
  outputs :: "outputDest set"
  filePath :: string
  writer :: "writer list"
  closer :: "string option"

text \<open>The package variable \<open>cfg\<close> as it is initialised.\<close>

definition cfg0 :: config where
  "cfg0 = \<lparr>level = INFO, fmt = JSON, outputs = {outStderr}, filePath = [], writer = [], closer = None\<rparr>"

text \<open>
  The file system is a parameter: \<open>canOpen p\<close> says whether \<open>os.MkdirAll\<close> (its error is
  dropped) followed by \<open>os.OpenFile\<close> of \<open>p\<close> succeeds. \<open>usableWriters\<close> is the list \<open>writers\<close>
  as it stands before the test of its length. The package function and the method of
  \<open>Logger\<close> have the same body; \<open>stdLogger.SetOutput(cfg.writer)\<close> makes the field \<open>writer\<close>
  the sink of every line printed.
\<close>

definition fileOpened :: "(string \<Rightarrow> bool) \<Rightarrow> config \<Rightarrow> bool" where
  "fileOpened canOpen c = (outFile \<in> outputs c \<and> TrimSpace (filePath c) \<noteq> [] \<and> canOpen (filePath c))"

definition usableWriters :: "(string \<Rightarrow> bool) \<Rightarrow> config \<Rightarrow> writer list" where
  "usableWriters canOpen c =
     (if outStdout \<in> outputs c then [Stdout] else []) @
     (if outStderr \<in> outputs c then [Stderr] else []) @
     (if fileOpened canOpen c then [FileWriter (filePath c)] else [])"

definition rebuildWriterLocked :: "(string \<Rightarrow> bool) \<Rightarrow> config \<Rightarrow> config" where
  "rebuildWriterLocked canOpen c =
     (let writers = usableWriters canOpen c;
          writers' = (if length writers = 0 then [Stderr] else writers)
      in c\<lparr>writer := writers',
           closer := (if fileOpened canOpen c then Some (filePath c) else None)\<rparr>)"

text \<open>The setters: the configuration after the call, and the error returned.\<close>

definition SetLogLevel :: "string \<Rightarrow> config \<Rightarrow> config \<times> error option" where
  "SetLogLevel s c =
     (case parseLevel s of
        (lv, Some err) \<Rightarrow> (c, Some err)
      | (lv, None) \<Rightarrow> (c\<lparr>level := lv\<rparr>, None))"

definition SetLogFmt :: "string \<Rightarrow> config \<Rightarrow> config \<times> error option" where
  "SetLogFmt s c =
     (case parseFormat s of
        (fm, Some err) \<Rightarrow> (c, Some err)
      | (fm, None) \<Rightarrow> (c\<lparr>fmt := fm\<rparr>, None))"

definition SetOutput :: "(string \<Rightarrow> bool) \<Rightarrow> string \<Rightarrow> config \<Rightarrow> config \<times> error option" where
  "SetOutput canOpen out c =
     (case parseOutput out (filePath c) of
        (outs, err) \<Rightarrow> (rebuildWriterLocked canOpen (c\<lparr>outputs := outs\<rparr>), err))"

definition SetLogFile :: "(string \<Rightarrow> bool) \<Rightarrow> string \<Rightarrow> config \<Rightarrow> config \<times> error option" where
  "SetLogFile canOpen path c =
     (let c1 = c\<lparr>filePath := TrimSpace path\<rparr> in
      if outFile \<in> outputs c1 \<and> filePath c1 = [] then
        (rebuildWriterLocked canOpen c1, Some SetLogFileEmpty)
      else (rebuildWriterLocked canOpen c1, None))"

text \<open>
  \<open>ReloadFromEnv\<close> reads the four environment variables, here the record \<open>environ\<close>.
\<close>

record environ =
  GOLOG_LOG_LEVEL :: string
  GOLOG_LOG_FMT :: string
  GOLOG_OUTPUT :: string
  GOLOG_FILE :: string

definition ReloadFromEnv :: "(string \<Rightarrow> bool) \<Rightarrow> environ \<Rightarrow> config \<Rightarrow> config \<times> error option" where
  "ReloadFromEnv canOpen env c =
     (let (lv0, err1) = parseLevel (GOLOG_LOG_LEVEL env);
          lv = (if err1 \<noteq> None then INFO else lv0);
          (fm0, err2) = parseFormat (GOLOG_LOG_FMT env);
          fm = (if err2 \<noteq> None then JSON else fm0);
          (outs, err3) = parseOutput (GOLOG_OUTPUT env) (GOLOG_FILE env);
          c1 = rebuildWriterLocked canOpen
                 (c\<lparr>level := lv, fmt := fm, filePath := TrimSpace (GOLOG_FILE env), outputs := outs\<rparr>)
      in (c1,
          case (err1, err3) of
            (Some e1, Some e3) \<Rightarrow> Some (Joined e1 e3)
          | (Some e1, None) \<Rightarrow> Some e1
          | (None, _) \<Rightarrow> (if err2 \<noteq> None then err2 else err3)))"

record Options =
  Level :: string
  Fmt :: string
  Output :: string
  File :: string

text \<open>\<open>New\<close> returns the configuration of the new \<open>Logger\<close> and the error.\<close>

definition New :: "(string \<Rightarrow> bool) \<Rightarrow> Options \<Rightarrow> config \<times> error option" where
  "New canOpen opts =
     (let lvl = (if TrimSpace (Level opts) = [] then ''INFO'' else Level opts);
          fmtStr = (if TrimSpace (Fmt opts) = [] then ''json'' else Fmt opts);
          (lv, err1) = parseLevel lvl;
          (fm, err2) = parseFormat fmtStr;
          (outs, err3) = parseOutput (Output opts) (File opts);
          c = \<lparr>level = lv, fmt = fm, outputs = outs, filePath = TrimSpace (File opts),
               writer = [], closer = None\<rparr>;
          l = rebuildWriterLocked canOpen c
      in (l, if err1 \<noteq> None then err1 else if err2 \<noteq> None then err2 else err3))"

section \<open>JSON texts\<close>

text \<open>
  \<open>json.Valid\<close> of the standard library runs the state machine of its \<open>scanner\<close> over the
  bytes of the text. The scanner holds the current state function (\<open>step\<close>, here a tag), the
  stack of the open objects and arrays (\<open>parseState\<close>, here with its top first), and the flag
  \<open>endTop\<close>. An error is the state \<open>Error\<close>, which no byte leaves.
\<close>

datatype parseTag = parseObjectKey | parseObjectValue | parseArrayValue

datatype stepTag =
    BeginValueOrEmpty | BeginValue | BeginStringOrEmpty | BeginString | EndValue | EndTop
  | InString | InStringEsc | InStringEscU | InStringEscU1 | InStringEscU12 | InStringEscU123
  | Neg | Digit1 | Digit0 | Dot | Dot0 | Exp | ESign | Exp0
  | LitT | LitTr | LitTru | LitF | LitFa | LitFal | LitFals | LitN | LitNu | LitNul
  | Error

record scanner =
  step :: stepTag
  parseState :: "parseTag list"
  endTop :: bool

definition maxNestingDepth :: nat where
  "maxNestingDepth = 10000"

definition isSpace :: "char \<Rightarrow> bool" where
  "isSpace c = (c = CHR 0x20 \<or> c = CHR 0x09 \<or> c = CHR 0x0D \<or> c = CHR 0x0A)"

definition isDigit :: "char \<Rightarrow> bool" where
  "isDigit c = (CHR ''0'' \<le> c \<and> c \<le> CHR ''9'')"

definition isHex :: "char \<Rightarrow> bool" where
  "isHex c = (isDigit c \<or> (CHR ''a'' \<le> c \<and> c \<le> CHR ''f'') \<or> (CHR ''A'' \<le> c \<and> c \<le> CHR ''F''))"

definition scanError :: "scanner \<Rightarrow> scanner" where
  "scanError s = s\<lparr>step := Error\<rparr>"

definition goto :: "stepTag \<Rightarrow> scanner \<Rightarrow> scanner" where
  "goto st s = s\<lparr>step := st\<rparr>"

definition pushParseState :: "scanner \<Rightarrow> parseTag \<Rightarrow> scanner" where
  "pushParseState s newParseState =
     (let s' = s\<lparr>parseState := newParseState # parseState s\<rparr> in
      if length (parseState s') \<le> maxNestingDepth then s' else scanError s')"

definition popParseState :: "scanner \<Rightarrow> scanner" where
  "popParseState s =
     (let ps = tl (parseState s) in
      if length ps = 0 then s\<lparr>parseState := ps, step := EndTop, endTop := True\<rparr>
      else s\<lparr>parseState := ps, step := EndValue\<rparr>)"

definition stateEndTop :: "scanner \<Rightarrow> char \<Rightarrow> scanner" where
  "stateEndTop s c = (if \<not> isSpace c then scanError s else s)"

definition stateEndValue :: "scanner \<Rightarrow> char \<Rightarrow> scanner" where
  "stateEndValue s c =
     (case parseState s of
        [] \<Rightarrow> stateEndTop (s\<lparr>step := EndTop, endTop := True\<rparr>) c
      | ps # rest \<Rightarrow>
          if isSpace c then goto EndValue s
          else
            (case ps of
               parseObjectKey \<Rightarrow>
                 if c = CHR '':'' then s\<lparr>parseState := parseObjectValue # rest, step := BeginValue\<rparr>
                 else scanError s
             | parseObjectValue \<Rightarrow>
                 if c = CHR '','' then s\<lparr>parseState := parseObjectKey # rest, step := BeginString\<rparr>
                 else if c = CHR ''}'' then popParseState s
                 else scanError s
             | parseArrayValue \<Rightarrow>
                 if c = CHR '','' then goto BeginValue s
                 else if c = CHR '']'' then popParseState s
                 else scanError s))"

definition stateBeginValue :: "scanner \<Rightarrow> char \<Rightarrow> scanner" where
  "stateBeginValue s c =
     (if isSpace c then s
      else if c = CHR ''{'' then pushParseState (goto BeginStringOrEmpty s) parseObjectKey
      else if c = CHR ''['' then pushParseState (goto BeginValueOrEmpty s) parseArrayValue
      else if c = CHR 0x22 then goto InString s
      else if c = CHR ''-'' then goto Neg s
      else if c = CHR ''0'' then goto Digit0 s
      else if c = CHR ''t'' then goto LitT s
      else if c = CHR ''f'' then goto LitF s
      else if c = CHR ''n'' then goto LitN s
      else if CHR ''1'' \<le> c \<and> c \<le> CHR ''9'' then goto Digit1 s
      else scanError s)"

definition stateBeginValueOrEmpty :: "scanner \<Rightarrow> char \<Rightarrow> scanner" where
  "stateBeginValueOrEmpty s c =
     (if isSpace c then s
      else if c = CHR '']'' then stateEndValue s c
      else stateBeginValue s c)"

definition stateBeginString :: "scanner \<Rightarrow> char \<Rightarrow> scanner" where
  "stateBeginString s c =
     (if isSpace c then s
      else if c = CHR 0x22 then goto InString s
      else scanError s)"

definition stateBeginStringOrEmpty :: "scanner \<Rightarrow> char \<Rightarrow> scanner" where
  "stateBeginStringOrEmpty s c =
     (if isSpace c then s
      else if c = CHR ''}'' then
        stateEndValue (s\<lparr>parseState := parseObjectValue # tl (parseState s)\<rparr>) c
      else stateBeginString s c)"

definition stateInString :: "scanner \<Rightarrow> char \<Rightarrow> scanner" where
  "stateInString s c =
     (if c = CHR 0x22 then goto EndValue s
      else if c = CHR 0x5C then goto InStringEsc s
      else if c < CHR 0x20 then scanError s
      else s)"

definition stateInStringEsc :: "scanner \<Rightarrow> char \<Rightarrow> scanner" where
  "stateInStringEsc s c =
     (if c \<in> set ''bfnrt/'' \<or> c = CHR 0x5C \<or> c = CHR 0x22 then goto InString s
      else if c = CHR ''u'' then goto InStringEscU s
      else scanError s)"

definition stateHex :: "stepTag \<Rightarrow> scanner \<Rightarrow> char \<Rightarrow> scanner" where
  "stateHex next s c = (if isHex c then goto next s else scanError s)"

definition state0 :: "scanner \<Rightarrow> char \<Rightarrow> scanner" where
  "state0 s c =
     (if c = CHR ''.'' then goto Dot s
      else if c = CHR ''e'' \<or> c = CHR ''E'' then goto Exp s
      else stateEndValue s c)"

definition state1 :: "scanner \<Rightarrow> char \<Rightarrow> scanner" where
  "state1 s c = (if isDigit c then goto Digit1 s else state0 s c)"

definition stateNeg :: "scanner \<Rightarrow> char \<Rightarrow> scanner" where
  "stateNeg s c =
     (if c = CHR ''0'' then goto Digit0 s
      else if CHR ''1'' \<le> c \<and> c \<le> CHR ''9'' then goto Digit1 s
      else scanError s)"

definition stateDot :: "scanner \<Rightarrow> char \<Rightarrow> scanner" where
  "stateDot s c = (if isDigit c then goto Dot0 s else scanError s)"

definition stateDot0 :: "scanner \<Rightarrow> char \<Rightarrow> scanner" where
  "stateDot0 s c =
     (if isDigit c then s
      else if c = CHR ''e'' \<or> c = CHR ''E'' then goto Exp s
      else stateEndValue s c)"

definition stateESign :: "scanner \<Rightarrow> char \<Rightarrow> scanner" where
  "stateESign s c = (if isDigit c then goto Exp0 s else scanError s)"

definition stateE :: "scanner \<Rightarrow> char \<Rightarrow> scanner" where
  "stateE s c = (if c = CHR ''+'' \<or> c = CHR ''-'' then goto ESign s else stateESign s c)"

definition stateE0 :: "scanner \<Rightarrow> char \<Rightarrow> scanner" where
  "stateE0 s c = (if isDigit c then s else stateEndValue s c)"

definition stateLit :: "char \<Rightarrow> stepTag \<Rightarrow> scanner \<Rightarrow> char \<Rightarrow> scanner" where
  "stateLit expected next s c = (if c = expected then goto next s else scanError s)"

text \<open>One call \<open>s.step(s, c)\<close>.\<close>

fun scanStep :: "scanner \<Rightarrow> char \<Rightarrow> scanner" where
  "scanStep s c =
     (case step s of
        BeginValueOrEmpty \<Rightarrow> stateBeginValueOrEmpty s c
      | BeginValue \<Rightarrow> stateBeginValue s c
      | BeginStringOrEmpty \<Rightarrow> stateBeginStringOrEmpty s c
      | BeginString \<Rightarrow> stateBeginString s c
      | EndValue \<Rightarrow> stateEndValue s c
      | EndTop \<Rightarrow> stateEndTop s c
      | InString \<Rightarrow> stateInString s c
      | InStringEsc \<Rightarrow> stateInStringEsc s c
      | InStringEscU \<Rightarrow> stateHex InStringEscU1 s c
      | InStringEscU1 \<Rightarrow> stateHex InStringEscU12 s c
      | InStringEscU12 \<Rightarrow> stateHex InStringEscU123 s c
      | InStringEscU123 \<Rightarrow> stateHex InString s c
      | Neg \<Rightarrow> stateNeg s c
      | Digit1 \<Rightarrow> state1 s c
      | Digit0 \<Rightarrow> state0 s c
      | Dot \<Rightarrow> stateDot s c
      | Dot0 \<Rightarrow> stateDot0 s c
      | Exp \<Rightarrow> stateE s c
      | ESign \<Rightarrow> stateESign s c
      | Exp0 \<Rightarrow> stateE0 s c
      | LitT \<Rightarrow> stateLit (CHR ''r'') LitTr s c
      | LitTr \<Rightarrow> stateLit (CHR ''u'') LitTru s c
      | LitTru \<Rightarrow> stateLit (CHR ''e'') EndValue s c
      | LitF \<Rightarrow> stateLit (CHR ''a'') LitFa s c
      | LitFa \<Rightarrow> stateLit (CHR ''l'') LitFal s c
      | LitFal \<Rightarrow> stateLit (CHR ''s'') LitFals s c
      | LitFals \<Rightarrow> stateLit (CHR ''e'') EndValue s c
      | LitN \<Rightarrow> stateLit (CHR ''u'') LitNu s c
      | LitNu \<Rightarrow> stateLit (CHR ''l'') LitNul s c
      | LitNul \<Rightarrow> stateLit (CHR ''l'') EndValue s c
      | Error \<Rightarrow> s)"

text \<open>
  \<open>checkValid\<close> steps through the bytes and then calls \<open>eof\<close>: the text is valid when no
  step has failed and the top-level value has ended, at the latest on one more space.
\<close>

definition scanReset :: scanner where
  "scanReset = \<lparr>step = BeginValue, parseState = [], endTop = False\<rparr>"

definition scanEOF :: "scanner \<Rightarrow> bool" where
  "scanEOF s =
     (if step s = Error then False
      else if endTop s then True
      else endTop (scanStep s (CHR 0x20)))"

definition jsonValid :: "string \<Rightarrow> bool" where
  "jsonValid data = scanEOF (foldl scanStep scanReset data)"

section \<open>The JSON decoder and encoder\<close>

text \<open>
  \<open>json.Unmarshal\<close> into an \<open>any\<close> builds a tree of \<open>nil\<close>, \<open>bool\<close>, \<open>float64\<close>, \<open>string\<close>,
  \<open>[]any\<close> and \<open>map[string]any\<close>, and \<open>json.Marshal\<close> writes such a tree back. Both belong
  to the standard library; they are modelled from its documentation. A number \<open>JNum m e\<close> is
  the decimal \<open>m * 10 ^ e\<close> that the text denotes, with no trailing zero in \<open>m\<close>. Go rounds the
  decimal to the nearest \<open>float64\<close> and prints the shortest decimal that reads back as the
  same \<open>float64\<close>; the rounding is not modelled, so two texts that Go reads as one \<open>float64\<close>
  may be two numbers here, and the text printed for a number of more than seventeen digits
  has all of them. A map is the list of its entries in the order of their keys, one entry
  for each key: that is the order in which \<open>json.Marshal\<close> writes them, and two maps are
  equal when their entries are.
\<close>

datatype jval =
    JNull
  | JBool bool
  | JNum int int
  | JStr string
  | JArr "jval list"
  | JObj "(string \<times> jval) list"


definition digitVal :: "char \<Rightarrow> int" where
  "digitVal c = of_char c - 48"



definition intOf :: "string \<Rightarrow> int" where
  "intOf ds = foldl (\<lambda>a c. 10 * a + digitVal c) 0 ds"

text \<open>The decimal \<open>m * 10 ^ e\<close> without the trailing zeros of \<open>m\<close>; zero is \<open>(0, 0)\<close>.\<close>

function normalise :: "int \<Rightarrow> int \<Rightarrow> int \<times> int" where
  "normalise m e =
     (if m \<le> 0 then (0, 0)
      else if m mod 10 = 0 then normalise (m div 10) (e + 1)
      else (m, e))"
  by pat_completeness auto
termination
  by (relation "measure (\<lambda>(m, e). nat m)") auto

declare normalise.simps [simp del]

text \<open>
  \<open>strconv.ParseFloat\<close> refuses a decimal that rounds to an infinity: one that is not below
  \<open>2 ^ 1024 - 2 ^ 970\<close>, half a unit in the last place above the largest \<open>float64\<close>. Then
  \<open>json.Unmarshal\<close> returns an \<open>UnmarshalTypeError\<close>.
\<close>

definition float64Limit :: int where
  "float64Limit = 2 ^ 1024 - 2 ^ 970"

definition inRange :: "int \<Rightarrow> int \<Rightarrow> bool" where
  "inRange m e =
     (if 0 \<le> e then m * 10 ^ nat e < float64Limit else m < float64Limit * 10 ^ nat (- e))"

text \<open>
  The three parts of a number after its sign: the integer digits (a single \<open>0\<close>, or digits
  that begin with another digit), the fraction and the exponent, each with the rest of the
  text.
\<close>

definition lexExp :: "string \<Rightarrow> (int \<times> string) option" where
  "lexExp s =
     (case s of
        [] \<Rightarrow> Some (0, s)
      | c # cs \<Rightarrow>
          if c = CHR ''e'' \<or> c = CHR ''E'' then
            (case cs of
               [] \<Rightarrow> None
             | g # gs \<Rightarrow>
                 if g = CHR ''+'' then
                   (if takeWhile isDigit gs = [] then None
                    else Some (intOf (takeWhile isDigit gs), dropWhile isDigit gs))
                 else if g = CHR ''-'' then
                   (if takeWhile isDigit gs = [] then None
                    else Some (- intOf (takeWhile isDigit gs), dropWhile isDigit gs))
                 else
                   (if takeWhile isDigit cs = [] then None
                    else Some (intOf (takeWhile isDigit cs), dropWhile isDigit cs)))
          else Some (0, s))"

definition lexFrac :: "string \<Rightarrow> (string \<times> string) option" where
  "lexFrac s =
     (case s of
        [] \<Rightarrow> Some ([], s)
      | c # cs \<Rightarrow>
          if c = CHR ''.'' then
            (if takeWhile isDigit cs = [] then None
             else Some (takeWhile isDigit cs, dropWhile isDigit cs))
          else Some ([], s))"

definition lexInt :: "string \<Rightarrow> (string \<times> string) option" where
  "lexInt s =
     (case s of
        [] \<Rightarrow> None
      | c # cs \<Rightarrow>
          if c = CHR ''0'' then Some ([c], cs)
          else if isDigit c then Some (c # takeWhile isDigit cs, dropWhile isDigit cs)
          else None)"

text \<open>A number: its decoded value and the rest of the text.\<close>

definition decodeNum :: "string \<Rightarrow> (jval \<times> string) option" where
  "decodeNum s =
     (let neg = (case s of [] \<Rightarrow> False | c # cs \<Rightarrow> c = CHR ''-'');
          s1 = (if neg then tl s else s)
      in case lexInt s1 of
           None \<Rightarrow> None
         | Some (ip, s2) \<Rightarrow>
             (case lexFrac s2 of
                None \<Rightarrow> None
              | Some (fp, s3) \<Rightarrow>
                  (case lexExp s3 of
                     None \<Rightarrow> None
                   | Some (ex, s4) \<Rightarrow>
                       (case normalise (intOf (ip @ fp)) (ex - int (length fp)) of
                          (m, e) \<Rightarrow>
                            if inRange m e
                            then Some (JNum (if neg then - m else m) e, s4)
                            else None))))"


text \<open>
  Strings. \<open>getu4\<close> is the function of that name: the code unit of an escape with \<open>u\<close> and four
  hexadecimal digits at the head of the text. \<open>encodeRune\<close> is \<open>utf8.EncodeRune\<close>,
  \<open>decodeSurrogates\<close> is \<open>utf16.DecodeRune\<close> with \<open>None\<close> for the replacement character, and
  \<open>unescape\<close> reads the byte after a backslash. \<open>decodeStrBody\<close> is \<open>unquote\<close> after the opening
  quote: the decoded bytes and the rest of the text after the closing quote. A surrogate
  without its pair decodes to U+FFFD. The bytes of the text that are not escaped are copied
  as they are (Go replaces a byte that is not valid UTF-8 by U+FFFD, which is not
  modelled).
\<close>

definition hexVal :: "char \<Rightarrow> int option" where
  "hexVal c =
     (if CHR ''0'' \<le> c \<and> c \<le> CHR ''9'' then Some (of_char c - 48)
      else if CHR ''a'' \<le> c \<and> c \<le> CHR ''f'' then Some (of_char c - 87)
      else if CHR ''A'' \<le> c \<and> c \<le> CHR ''F'' then Some (of_char c - 55)
      else None)"


definition getu4 :: "string \<Rightarrow> int option" where
  "getu4 s =
     (case s of
        b # u # h1 # h2 # h3 # h4 # r \<Rightarrow>
          if b = CHR 0x5C \<and> u = CHR ''u'' then
            (case (hexVal h1, hexVal h2, hexVal h3, hexVal h4) of
               (Some a, Some b, Some c, Some d) \<Rightarrow> Some (((a * 16 + b) * 16 + c) * 16 + d)
             | _ \<Rightarrow> None)
          else None
      | _ \<Rightarrow> None)"

definition encodeRune :: "int \<Rightarrow> string" where
  "encodeRune n =
     (if n < 0x80 then [char_of n]
      else if n < 0x800 then [char_of (0xC0 + n div 64), char_of (0x80 + n mod 64)]
      else if n < 0x10000 then
        [char_of (0xE0 + n div 4096), char_of (0x80 + (n div 64) mod 64), char_of (0x80 + n mod 64)]
      else
        [char_of (0xF0 + n div 262144), char_of (0x80 + (n div 4096) mod 64),
         char_of (0x80 + (n div 64) mod 64), char_of (0x80 + n mod 64)])"

definition isSurrogate :: "int \<Rightarrow> bool" where
  "isSurrogate r = (0xD800 \<le> r \<and> r < 0xE000)"

definition decodeSurrogates :: "int \<Rightarrow> int option \<Rightarrow> int option" where
  "decodeSurrogates r1 r2 =
     (case r2 of
        None \<Rightarrow> None
      | Some r \<Rightarrow>
          if 0xD800 \<le> r1 \<and> r1 < 0xDC00 \<and> 0xDC00 \<le> r \<and> r < 0xE000
          then Some ((r1 - 0xD800) * 1024 + (r - 0xDC00) + 0x10000)
          else None)"

definition unescape :: "char \<Rightarrow> char option" where
  "unescape e =
     (if e = CHR 0x22 \<or> e = CHR 0x5C \<or> e = CHR ''/'' then Some e
      else if e = CHR ''b'' then Some (CHR 0x08)
      else if e = CHR ''f'' then Some (CHR 0x0C)
      else if e = CHR ''n'' then Some (CHR 0x0A)
      else if e = CHR ''r'' then Some (CHR 0x0D)
      else if e = CHR ''t'' then Some (CHR 0x09)
      else None)"

function decodeStrBody :: "string \<Rightarrow> (string \<times> string) option" where
  "decodeStrBody s =
     (case s of
        [] \<Rightarrow> None
      | c # cs \<Rightarrow>
          if c = CHR 0x22 then Some ([], cs)
          else if c = CHR 0x5C then
            (case cs of
               [] \<Rightarrow> None
             | e # es \<Rightarrow>
                 if e = CHR ''u'' then
                   (case getu4 s of
                      None \<Rightarrow> None
                    | Some rr \<Rightarrow>
                        if isSurrogate rr then
                          (case decodeSurrogates rr (getu4 (drop 6 s)) of
                             Some dec \<Rightarrow>
                               (case decodeStrBody (drop 12 s) of
                                  None \<Rightarrow> None
                                | Some (t, r) \<Rightarrow> Some (encodeRune dec @ t, r))
                           | None \<Rightarrow>
                               (case decodeStrBody (drop 6 s) of
                                  None \<Rightarrow> None
                                | Some (t, r) \<Rightarrow> Some (encodeRune 0xFFFD @ t, r)))
                        else
                          (case decodeStrBody (drop 6 s) of
                             None \<Rightarrow> None
                           | Some (t, r) \<Rightarrow> Some (encodeRune rr @ t, r)))
                 else
                   (case unescape e of
                      None \<Rightarrow> None
                    | Some b \<Rightarrow>
                        (case decodeStrBody es of
                           None \<Rightarrow> None
                         | Some (t, r) \<Rightarrow> Some (b # t, r))))
          else if c < CHR 0x20 then None
          else
            (case decodeStrBody cs of
               None \<Rightarrow> None
             | Some (t, r) \<Rightarrow> Some (c # t, r)))"
  by pat_completeness auto
termination
  by (relation "measure length") auto

declare decodeStrBody.simps [simp del]



text \<open>
  The decoder of values, of the elements of an array after its bracket, and of the members
  of an object after its brace. The first argument bounds the depth of the recursion;
  \<open>decodeTree\<close> gives it more than the length of the text. A key that occurs twice keeps
  its last value, as an assignment to a Go map does.
\<close>

definition skipSpace :: "string \<Rightarrow> string" where
  "skipSpace s = dropWhile isSpace s"

fun decodeValue :: "nat \<Rightarrow> string \<Rightarrow> (jval \<times> string) option"
  and decodeArray :: "nat \<Rightarrow> string \<Rightarrow> jval list \<Rightarrow> (jval list \<times> string) option"
  and decodeObject ::
    "nat \<Rightarrow> string \<Rightarrow> (string \<times> jval) list \<Rightarrow> ((string \<times> jval) list \<times> string) option" where
  "decodeValue 0 s = None"
| "decodeValue (Suc n) s =
     (case skipSpace s of
        [] \<Rightarrow> None
      | c # cs \<Rightarrow>
          if c = CHR ''{'' then
            (case skipSpace cs of
               [] \<Rightarrow> None
             | x # r \<Rightarrow>
                 if x = CHR ''}'' then Some (JObj [], r)
                 else
                   (case decodeObject n cs [] of
                      None \<Rightarrow> None
                    | Some (m, r') \<Rightarrow> Some (JObj (sort_key fst m), r')))
          else if c = CHR ''['' then
            (case skipSpace cs of
               [] \<Rightarrow> None
             | x # r \<Rightarrow>
                 if x = CHR '']'' then Some (JArr [], r)
                 else
                   (case decodeArray n cs [] of
                      None \<Rightarrow> None
                    | Some (xs, r') \<Rightarrow> Some (JArr xs, r')))
          else if c = CHR 0x22 then
            (case decodeStrBody cs of
               None \<Rightarrow> None
             | Some (t, r) \<Rightarrow> Some (JStr t, r))
          else if hasPrefix ''true'' (c # cs) then Some (JBool True, drop 4 (c # cs))
          else if hasPrefix ''false'' (c # cs) then Some (JBool False, drop 5 (c # cs))
          else if hasPrefix ''null'' (c # cs) then Some (JNull, drop 4 (c # cs))
          else decodeNum (c # cs))"
| "decodeArray 0 s acc = None"
| "decodeArray (Suc n) s acc =
     (case decodeValue n s of
        None \<Rightarrow> None
      | Some (v, r) \<Rightarrow>
          (case skipSpace r of
             [] \<Rightarrow> None
           | x # r' \<Rightarrow>
               if x = CHR '','' then decodeArray n r' (acc @ [v])
               else if x = CHR '']'' then Some (acc @ [v], r')
               else None))"
| "decodeObject 0 s acc = None"
| "decodeObject (Suc n) s acc =
     (case skipSpace s of
        [] \<Rightarrow> None
      | q # r \<Rightarrow>
          if q \<noteq> CHR 0x22 then None
          else
            (case decodeStrBody r of
               None \<Rightarrow> None
             | Some (k, r1) \<Rightarrow>
                 (case skipSpace r1 of
                    [] \<Rightarrow> None
                  | col # r2 \<Rightarrow>
                      if col \<noteq> CHR '':'' then None
                      else
                        (case decodeValue n r2 of
                           None \<Rightarrow> None
                         | Some (v, r3) \<Rightarrow>
                             (case skipSpace r3 of
                                [] \<Rightarrow> None
                              | x # r4 \<Rightarrow>
                                  if x = CHR '','' then decodeObject n r4 (AList.update k v acc)
                                  else if x = CHR ''}'' then Some (AList.update k v acc, r4)
                                  else None)))))"

definition decodeTree :: "string \<Rightarrow> jval option" where
  "decodeTree s =
     (case decodeValue (Suc (length s)) s of
        None \<Rightarrow> None
      | Some (v, r) \<Rightarrow> if skipSpace r = [] then Some v else None)"













section \<open>Values of type \<open>any\<close>\<close>

text \<open>
  The arguments of a log call are Go values of any type. The classifier tells apart a
  \<open>string\<close>, a value that implements \<open>error\<close> (here by the text its method \<open>Error\<close>
  returns) and a \<open>map[string]any\<close> (its entries in the order in which \<open>range\<close> visits them).
  A map of another type is not a \<open>map[string]any\<close> for the type assertion of the classifier;
  \<open>VStrMap\<close> is a \<open>map[string]string\<close>. \<open>VSlice\<close> is a \<open>[]any\<close>. \<open>VJSON s\<close> stands for the value that \<open>json.Unmarshal\<close> decodes
  from the JSON text \<open>s\<close>, the tree \<open>decodeTree s\<close>. \<open>VUnsupported t\<close> is a value
  that \<open>json.Marshal\<close> refuses (a channel, a function, a NaN), with the text \<open>t\<close> of the error.
\<close>

datatype val =
    VNil
  | VBool bool
  | VInt int
  | VStr string
  | VErr string
  | VMap "(string \<times> val) list"
  | VStrMap "(string \<times> string) list"
  | VSlice "val list"
  | VJSON string
  | VUnsupported string

text \<open>
  \<open>json.Unmarshal\<close> into an \<open>any\<close>: it checks the syntax with the scanner and then decodes.
  \<open>None\<close> is an error, of the syntax or of a number beyond the range of \<open>float64\<close>.
\<close>

definition jsonUnmarshal :: "string \<Rightarrow> val option" where
  "jsonUnmarshal s =
     (if jsonValid s then (case decodeTree s of None \<Rightarrow> None | Some x \<Rightarrow> Some (VJSON s))
      else None)"

fun firstErr :: "string option list \<Rightarrow> string option" where
  "firstErr [] = None"
| "firstErr (None # es) = firstErr es"
| "firstErr (Some e # es) = Some e"

text \<open>
  The error of \<open>json.Marshal v\<close>, if any. The encoded bytes are not modelled: a value that
  encodes stands for its own JSON text. Go encodes the entries of a map in the order of
  their keys.
\<close>

primrec marshalErr :: "val \<Rightarrow> string option" where
  "marshalErr VNil = None"
| "marshalErr (VBool b) = None"
| "marshalErr (VInt i) = None"
| "marshalErr (VStr s) = None"
| "marshalErr (VErr e) = None"
| "marshalErr (VMap m) = firstErr (map snd (sort_key fst (map (map_prod id marshalErr) m)))"
| "marshalErr (VStrMap m) = None"
| "marshalErr (VSlice xs) = firstErr (map marshalErr xs)"
| "marshalErr (VJSON s) = None"
| "marshalErr (VUnsupported t) = Some t"


section \<open>The argument classifier\<close>

text \<open>The full-width colon U+FF1A, in UTF-8.\<close>

definition fullwidthColon :: string where
  "fullwidthColon = [CHR 0xEF, CHR 0xBC, CHR 0x9A]"

definition normalizeKey :: "string \<Rightarrow> string" where
  "normalizeKey k = TrimSuffix (TrimSuffix (TrimSpace k) '':'') fullwidthColon"

definition mustUnmarshalAny :: "string \<Rightarrow> val" where
  "mustUnmarshalAny s = (case jsonUnmarshal s of None \<Rightarrow> VStr s | Some x \<Rightarrow> x)"

definition parseJSONIfString :: "val \<Rightarrow> val" where
  "parseJSONIfString v =
     (case v of
        VStr s \<Rightarrow> (let s' = TrimSpace s in if jsonValid s' then mustUnmarshalAny s' else VStr s')
      | _ \<Rightarrow> v)"

text \<open>
  The five results of \<open>parseArgs\<close>. The map \<open>fields\<close> is the association list \<open>fieldMap\<close>,
  with one entry for each key, written with \<^const>\<open>AList.update\<close>; \<open>errField\<close> is the
  error by its text.
\<close>

record parsed =
  msg :: val
  fieldMap :: "(string \<times> val) list"
  dataJSON :: "string list"
  errField :: "string option"
  extra :: "val list"

text \<open>The loop over the entries of the map, in the single-map branch.\<close>

fun copyMap :: "(string \<times> val) list \<Rightarrow> (string \<times> val) list \<Rightarrow> (string \<times> val) list" where
  "copyMap [] fs = fs"
| "copyMap ((k, v) # m) fs = copyMap m (AList.update (normalizeKey k) v fs)"

text \<open>
  The test of the first loop over \<open>rest\<close>: a string whose trimmed text is valid JSON, and
  the text that the loop keeps for it.
\<close>

definition isJSONText :: "val \<Rightarrow> bool" where
  "isJSONText v = (case v of VStr s \<Rightarrow> jsonValid (TrimSpace s) | _ \<Rightarrow> False)"

definition trimmedText :: "val \<Rightarrow> string" where
  "trimmedText v = (case v of VStr s \<Rightarrow> TrimSpace s | _ \<Rightarrow> [])"

text \<open>The first loop over \<open>rest\<close>: the JSON texts go to \<open>dataJSON\<close>, the others to \<open>kv\<close>.\<close>

fun extractData :: "val list \<Rightarrow> string list \<Rightarrow> val list \<Rightarrow> string list \<times> val list" where
  "extractData [] ds kv = (ds, kv)"
| "extractData (VStr s # vs) ds kv =
     (let ss = TrimSpace s in
      if jsonValid ss then extractData vs (ds @ [ss]) kv
      else extractData vs ds (kv @ [VStr s]))"
| "extractData (v # vs) ds kv = extractData vs ds (kv @ [v])"

text \<open>The test \<open>kv[len(kv)-1].(error)\<close> together with the parity of the length.\<close>

definition detachError :: "val list \<Rightarrow> string option \<times> val list" where
  "detachError kv =
     (if length kv > 0 then
        (case last kv of
           VErr e \<Rightarrow> if length kv mod 2 = 1 then (Some e, butlast kv) else (None, kv)
         | _ \<Rightarrow> (None, kv))
      else (None, kv))"

text \<open>The loop \<open>for i := 0; i+1 < len(kv); i += 2\<close>.\<close>

fun pairKV :: "val list \<Rightarrow> (string \<times> val) list \<Rightarrow> val list \<Rightarrow> (string \<times> val) list \<times> val list" where
  "pairKV (VStr key # v # kv) fs ex = pairKV kv (AList.update (normalizeKey key) v fs) ex"
| "pairKV (k # v # kv) fs ex = pairKV kv fs (ex @ [k, v])"
| "pairKV kv fs ex = (fs, ex)"

text \<open>
  For the statements about the pairing loop: the adjacent pairs of a list, and of these the
  pairs with a string key, each under its normalised key, in the order of the list.
\<close>

fun pairsOf :: "val list \<Rightarrow> (val \<times> val) list" where
  "pairsOf (k # v # kv) = (k, v) # pairsOf kv"
| "pairsOf kv = []"

fun keyedPairs :: "(val \<times> val) list \<Rightarrow> (string \<times> val) list" where
  "keyedPairs [] = []"
| "keyedPairs ((VStr key, v) # ps) = (normalizeKey key, v) # keyedPairs ps"
| "keyedPairs (p # ps) = keyedPairs ps"

definition parseArgs :: "val list \<Rightarrow> parsed" where
  "parseArgs args =
     (case args of
        [] \<Rightarrow> \<lparr>msg = VStr [], fieldMap = [], dataJSON = [], errField = None, extra = []\<rparr>
      | m # rest \<Rightarrow>
          (case rest of
             [VMap mp] \<Rightarrow>
               \<lparr>msg = m, fieldMap = copyMap mp [], dataJSON = [], errField = None, extra = []\<rparr>
           | _ \<Rightarrow>
               (let (ds, kv0) = extractData rest [] [];
                    (ef, kv) = detachError kv0;
                    (fs, ex) = pairKV kv [] [];
                    ex' = (if length kv mod 2 = 1 then ex @ [last kv] else ex)
                in \<lparr>msg = m, fieldMap = fs, dataJSON = ds, errField = ef, extra = ex'\<rparr>)))"

section \<open>The JSON encoder\<close>

record orderedEntry =
  Ts :: string
  Lv :: string
  Caller :: string
  Msg :: val
  Extra :: "(string \<times> val) list"
  Err :: "string option"

text \<open>
  The object under construction is the list of its members in the order in which they are
  written. \<open>writeKV\<close> is the closure of that name; \<open>writeKVs\<close> calls it for each pair of a
  list and returns at the first error.
\<close>

definition writeKV :: "(string \<times> val) list \<Rightarrow> string \<Rightarrow> val \<Rightarrow> string + (string \<times> val) list" where
  "writeKV b k v = (case marshalErr v of Some e \<Rightarrow> Inl e | None \<Rightarrow> Inr (b @ [(k, v)]))"

fun writeKVs :: "(string \<times> val) list \<Rightarrow> (string \<times> val) list \<Rightarrow> string + (string \<times> val) list" where
  "writeKVs b [] = Inr b"
| "writeKVs b ((k, v) # kvs) = (case writeKV b k v of Inl e \<Rightarrow> Inl e | Inr b' \<Rightarrow> writeKVs b' kvs)"

definition reservedKey :: "string \<Rightarrow> bool" where
  "reservedKey k = (k = ''ts'' \<or> k = ''lv'' \<or> k = ''caller'' \<or> k = ''msg'' \<or> k = ''err'')"

text \<open>\<open>e.Extra[k]\<close>: a key that is absent reads as \<open>nil\<close>.\<close>

definition mapIndex :: "(string \<times> val) list \<Rightarrow> string \<Rightarrow> val" where
  "mapIndex m k = (case map_of m k of None \<Rightarrow> VNil | Some v \<Rightarrow> v)"

definition extraKeys :: "orderedEntry \<Rightarrow> string list" where
  "extraKeys e =
     (if length (Extra e) > 0 then sort (filter (\<lambda>k. \<not> reservedKey k) (map fst (Extra e)))
      else [])"

definition MarshalJSON :: "orderedEntry \<Rightarrow> string + (string \<times> val) list" where
  "MarshalJSON e =
     (case writeKVs []
             [(''ts'', VStr (Ts e)), (''lv'', VStr (Lv e)), (''caller'', VStr (Caller e)),
              (''msg'', Msg e)] of
        Inl err \<Rightarrow> Inl err
      | Inr b \<Rightarrow>
          (case writeKVs b (map (\<lambda>k. (k, mapIndex (Extra e) k)) (extraKeys e)) of
             Inl err \<Rightarrow> Inl err
           | Inr b' \<Rightarrow>
               (case Err e of
                  None \<Rightarrow> Inr b'
                | Some s \<Rightarrow> writeKV b' ''err'' (VStr s))))"

text \<open>The loop \<open>for k, v := range fields\<close> of \<open>buildJSONEntry\<close>.\<close>

fun promoteFields :: "(string \<times> val) list \<Rightarrow> (string \<times> val) list \<Rightarrow> (string \<times> val) list" where
  "promoteFields [] m = m"
| "promoteFields ((k, v) # fs) m = promoteFields fs (AList.update k (parseJSONIfString v) m)"

text \<open>The clock is a parameter: \<open>now\<close> is \<open>time.Now()\<close> in the layout of the source.\<close>

definition buildJSONEntry :: "string \<Rightarrow> Level \<Rightarrow> string \<Rightarrow> val list \<Rightarrow> orderedEntry" where
  "buildJSONEntry now lv caller args =
     (let p = parseArgs args;
          m0 = promoteFields (fieldMap p) [];
          m1 = (if length (dataJSON p) = 1 then
                  AList.update ''data'' (mustUnmarshalAny (hd (dataJSON p))) m0
                else if length (dataJSON p) > 1 then
                  AList.update ''data'' (VSlice (map mustUnmarshalAny (dataJSON p))) m0
                else m0);
          m2 = (if length (extra p) > 0 then AList.update ''args'' (VSlice (extra p)) m1 else m1)
      in \<lparr>Ts = now, Lv = Level_String lv, Caller = caller, Msg = parseJSONIfString (msg p),
          Extra = m2, Err = errField p\<rparr>)"

section \<open>The log call\<close>

text \<open>
  A line handed to \<open>Println\<close>. A JSON line is the list of its members in order. The layout
  of a text line is not modelled: the line is given by the parts that \<open>buildTextLine\<close>
  renders.
\<close>

datatype line =
    JSONLine "(string \<times> val) list"
  | TextLine string string string parsed

definition buildTextLine :: "string \<Rightarrow> Level \<Rightarrow> string \<Rightarrow> val list \<Rightarrow> line" where
  "buildTextLine now lv caller args = TextLine now (Level_String lv) caller (parseArgs args)"

definition enabled :: "Level \<Rightarrow> Level \<Rightarrow> bool" where
  "enabled lv minLv = (rank lv \<ge> rank minLv)"

text \<open>
  \<open>json.Marshal(entry)\<close> calls \<open>entry.MarshalJSON\<close> and wraps its error.
\<close>

definition jsonMarshalEntry :: "orderedEntry \<Rightarrow> string + (string \<times> val) list" where
  "jsonMarshalEntry e =
     (case MarshalJSON e of
        Inl err \<Rightarrow> Inl (''json: error calling MarshalJSON for type logging.orderedEntry: '' @ err)
      | Inr b \<Rightarrow> Inr b)"

text \<open>
  What a call of \<open>logWithCaller\<close> does after it has read \<open>cfg.level\<close> and \<open>cfg.fmt\<close>: the calls
  it makes, in order. The stack walk of \<open>resolveCaller\<close> is a parameter, \<open>caller\<close> is its
  result. The diagnostic line reads the clock a second time; both readings are \<open>now\<close>. The
  package function and the method of \<open>Logger\<close> have the same body.
\<close>

datatype call =
    ResolveCaller
  | BuildJSONEntry
  | JSONMarshal
  | BuildTextLine
  | Println line

definition logWithCaller :: "string \<Rightarrow> string \<Rightarrow> config \<Rightarrow> Level \<Rightarrow> val list \<Rightarrow> call list" where
  "logWithCaller now caller c lv args =
     (if \<not> enabled lv (level c) then []
      else if fmt c = JSON then
        [ResolveCaller, BuildJSONEntry, JSONMarshal,
         (case jsonMarshalEntry (buildJSONEntry now lv caller args) of
            Inl err \<Rightarrow>
              Println (JSONLine [(''ts'', VStr now), (''lv'', VStr ''ERROR''), (''caller'', VStr caller),
                                 (''msg'', VStr ''marshal log failed''), (''err'', VStr err)])
          | Inr b \<Rightarrow> Println (JSONLine b))]
      else [ResolveCaller, BuildTextLine, Println (buildTextLine now lv caller args)])"

text \<open>\<open>Log\<close>, the entry point that takes the level by name.\<close>

definition Log :: "string \<Rightarrow> string \<Rightarrow> config \<Rightarrow> string \<Rightarrow> val list \<Rightarrow> call list" where
  "Log now caller c lvStr args =
     (case parseLevel lvStr of
        (lv, Some err) \<Rightarrow> logWithCaller now caller c INFO args
      | (lv, None) \<Rightarrow> logWithCaller now caller c lv args)"

section \<open>Properties of the configuration\<close>

lemma TrimSpace_Nil: "TrimSpace [] = []"
  by code_simp

lemma rebuild_writer:
  "writer (rebuildWriterLocked canOpen c) =
     (if usableWriters canOpen c = [] then [Stderr] else usableWriters canOpen c)"
  by (simp add: rebuildWriterLocked_def Let_def)

lemma rebuild_writer_nonempty: "writer (rebuildWriterLocked canOpen c) \<noteq> []"
  by (simp add: rebuild_writer)

text \<open>
  C3. After each rebuild the composed writer is not empty, and it is stderr alone when no
  selected destination gives a writer: neither stdout nor stderr is selected, and the file
  is not selected, or has a blank path, or cannot be opened. This holds after every
  mutator that rebuilds (\<open>SetOutput\<close>, \<open>SetLogFile\<close>, \<open>ReloadFromEnv\<close>, \<open>New\<close>). Scenario D:
  with an empty file path, \<open>SetOutput "file"\<close> returns an error and the writer is stderr.
\<close>

theorem rebuild_fallback:
  "writer (rebuildWriterLocked canOpen c) \<noteq> []
   \<and> (outStdout \<notin> outputs c \<and> outStderr \<notin> outputs c \<and>
        (outFile \<notin> outputs c \<or> TrimSpace (filePath c) = [] \<or> \<not> canOpen (filePath c))
      \<longrightarrow> writer (rebuildWriterLocked canOpen c) = [Stderr])
   \<and> writer (fst (SetOutput canOpen out c)) \<noteq> []
   \<and> writer (fst (SetLogFile canOpen path c)) \<noteq> []
   \<and> writer (fst (ReloadFromEnv canOpen env c)) \<noteq> []
   \<and> writer (fst (New canOpen opts)) \<noteq> []
   \<and> (filePath c = [] \<longrightarrow>
        snd (SetOutput canOpen ''file'' c) = Some OutputFileEmpty \<and>
        writer (fst (SetOutput canOpen ''file'' c)) = [Stderr])"
proof -
  have fb: "outStdout \<notin> outputs c \<and> outStderr \<notin> outputs c \<and>
        (outFile \<notin> outputs c \<or> TrimSpace (filePath c) = [] \<or> \<not> canOpen (filePath c))
      \<longrightarrow> writer (rebuildWriterLocked canOpen c) = [Stderr]"
    by (auto simp add: rebuild_writer usableWriters_def fileOpened_def)
  have so: "writer (fst (SetOutput canOpen out c)) \<noteq> []"
    by (simp add: SetOutput_def rebuild_writer_nonempty split: prod.split)
  have sf: "writer (fst (SetLogFile canOpen path c)) \<noteq> []"
    by (simp add: SetLogFile_def Let_def rebuild_writer_nonempty)
  have re: "writer (fst (ReloadFromEnv canOpen env c)) \<noteq> []"
    by (simp add: ReloadFromEnv_def Let_def rebuild_writer_nonempty split: prod.split)
  have nw: "writer (fst (New canOpen opts)) \<noteq> []"
    by (simp add: New_def Let_def rebuild_writer_nonempty split: prod.split)
  have pf: "parseOutput ''file'' [] = ({outFile}, Some OutputFileEmpty)"
    by code_simp
  have sd: "filePath c = [] \<longrightarrow>
        snd (SetOutput canOpen ''file'' c) = Some OutputFileEmpty \<and>
        writer (fst (SetOutput canOpen ''file'' c)) = [Stderr]"
    by (simp add: SetOutput_def pf rebuild_writer usableWriters_def fileOpened_def TrimSpace_Nil)
  from rebuild_writer_nonempty fb so sf re nw sd show ?thesis by blast
qed

text \<open>
  The file is selected and cannot be opened: stderr alone. Scenario D on the initial
  configuration, with a file system where every file opens.
\<close>

theorem rebuild_fallback_witness:
  "writer (rebuildWriterLocked (\<lambda>p. False)
            (cfg0\<lparr>outputs := {outFile}, filePath := ''/nodir/app.log''\<rparr>)) = [Stderr]
   \<and> SetOutput (\<lambda>p. True) ''file'' cfg0
       = (cfg0\<lparr>outputs := {outFile}, writer := [Stderr]\<rparr>, Some OutputFileEmpty)"
proof -
  have a: "outStdout \<notin> outputs (cfg0\<lparr>outputs := {outFile}, filePath := ''/nodir/app.log''\<rparr>)"
    "outStderr \<notin> outputs (cfg0\<lparr>outputs := {outFile}, filePath := ''/nodir/app.log''\<rparr>)"
    "filePath cfg0 = []"
    by (simp_all add: cfg0_def)
  have b: "fst (SetOutput (\<lambda>p. True) ''file'' cfg0) =
      (fst (SetOutput (\<lambda>p. True) ''file'' cfg0))
        \<lparr>writer := writer (fst (SetOutput (\<lambda>p. True) ''file'' cfg0))\<rparr>"
    by simp
  have c: "(fst (SetOutput (\<lambda>p. True) ''file'' cfg0))\<lparr>writer := w\<rparr> =
      cfg0\<lparr>outputs := {outFile}, writer := w\<rparr>" for w
    by code_simp
  show ?thesis
    using rebuild_fallback [of "\<lambda>p. False" "cfg0\<lparr>outputs := {outFile}, filePath := ''/nodir/app.log''\<rparr>"]
      rebuild_fallback [of "\<lambda>p. True" cfg0 "''file''"] a b c
    by (metis prod.collapse)
qed

text \<open>
  C4, as the claim states it, fails: a file path of two spaces is not empty, and with an
  empty specification the parser answers stderr, not the file.
\<close>

theorem parseOutput_empty_counterexample:
  "''  '' \<noteq> [] \<and> parseOutput [] ''  '' = ({outStderr}, None)"
  by code_simp

text \<open>
  C4, amended. For a specification that is empty after trimming, the result is the file
  alone, with no error, when the file path is not empty after trimming, and stderr alone,
  with no error, when the file path is empty or blank.
\<close>

theorem parseOutput_empty_spec:
  "TrimSpace spec = [] \<longrightarrow>
     (TrimSpace path \<noteq> [] \<longrightarrow> parseOutput spec path = ({outFile}, None)) \<and>
     (TrimSpace path = [] \<longrightarrow> parseOutput spec path = ({outStderr}, None)) \<and>
     (path = [] \<longrightarrow> parseOutput spec path = ({outStderr}, None))"
  by (simp add: parseOutput_def Let_def TrimSpace_Nil)

text \<open>Scenario C, a blank specification with the same path, and a blank specification alone.\<close>

theorem parseOutput_empty_spec_witness:
  "parseOutput [] ''/tmp/app.log'' = ({outFile}, None) \<and>
   parseOutput ''  '' ''/tmp/app.log'' = ({outFile}, None) \<and>
   parseOutput ''  '' [] = ({outStderr}, None)"
proof -
  have a: "TrimSpace ''  '' = []" by code_simp
  have b: "TrimSpace ''/tmp/app.log'' \<noteq> []" by code_simp
  show ?thesis
    using parseOutput_empty_spec [of "[]" "''/tmp/app.log''"]
      parseOutput_empty_spec [of "''  ''" "''/tmp/app.log''"]
      parseOutput_empty_spec [of "''  ''" "[]"] a b TrimSpace_Nil
    by simp
qed

lemma parseLevel_dotless_i:
  "parseLevel (''warn'' @ [CHR 0xC4, CHR 0xB1] @ ''ng'') = (WARN, None)"
  by code_simp

text \<open>
  C8, as the claim states it, fails: the empty string is none of the five names, yet the
  setter accepts it, returns no error and moves the level from DEBUG to INFO.
\<close>

theorem SetLogLevel_counterexample:
  "ToUpper (TrimSpace []) \<notin> {''DEBUG'', ''INFO'', ''WARN'', ''WARNING'', ''ERROR''}
   \<and> snd (SetLogLevel [] (cfg0\<lparr>level := DEBUG\<rparr>)) = None
   \<and> level (fst (SetLogLevel [] (cfg0\<lparr>level := DEBUG\<rparr>))) = INFO
   \<and> level (cfg0\<lparr>level := DEBUG\<rparr>) = DEBUG"
  by code_simp

text \<open>
  C8, amended. When the input, trimmed and in upper case, is neither empty nor one of
  DEBUG, INFO, WARN, WARNING, ERROR, the setter returns the error that carries the input
  and the whole configuration is as before. An input that is empty after trimming is
  accepted as INFO. Whenever the setter returns an error the configuration is unchanged.
\<close>

theorem SetLogLevel_invalid_unchanged:
  "(ToUpper (TrimSpace s) \<notin> {''DEBUG'', ''INFO'', [], ''WARN'', ''WARNING'', ''ERROR''}
      \<longrightarrow> SetLogLevel s c = (c, Some (UnknownLevel s)))
   \<and> (ToUpper (TrimSpace s) = [] \<longrightarrow> SetLogLevel s c = (c\<lparr>level := INFO\<rparr>, None))
   \<and> (snd (SetLogLevel s c) \<noteq> None \<longrightarrow> fst (SetLogLevel s c) = c)"
  by (auto simp add: SetLogLevel_def parseLevel_def Let_def)

theorem SetLogLevel_invalid_unchanged_witness:
  "SetLogLevel ''verbose'' cfg0 = (cfg0, Some (UnknownLevel ''verbose''))
   \<and> SetLogLevel ''  '' (cfg0\<lparr>level := ERROR\<rparr>) = (cfg0\<lparr>level := INFO\<rparr>, None)"
proof -
  have a: "ToUpper (TrimSpace ''verbose'')
      \<notin> {''DEBUG'', ''INFO'', [], ''WARN'', ''WARNING'', ''ERROR''}"
    by code_simp
  have b: "ToUpper (TrimSpace ''  '') = []" by code_simp
  show ?thesis
    using SetLogLevel_invalid_unchanged [of "''verbose''" cfg0]
      SetLogLevel_invalid_unchanged [of "''  ''" "cfg0\<lparr>level := ERROR\<rparr>"] a b
    by (simp add: cfg0_def)
qed

section \<open>Properties of the classifier\<close>

lemma copyMap_keys:
  "fst ` set (copyMap mp fs) = normalizeKey ` fst ` set mp \<union> fst ` set fs"
  by (induction mp fs rule: copyMap.induct) (auto simp add: dom_update)

lemma copyMap_lookup:
  "\<forall>k' v'. (k', v') \<in> set mp \<and> normalizeKey k' = x \<longrightarrow> v' = v \<Longrightarrow>
   (\<exists>k'. (k', v) \<in> set mp \<and> normalizeKey k' = x) \<or> map_of fs x = Some v \<Longrightarrow>
   map_of (copyMap mp fs) x = Some v"
proof (induction mp fs rule: copyMap.induct)
  case (1 fs)
  then show ?case by simp
next
  case (2 k w m fs)
  have same: "\<forall>k' v'. (k', v') \<in> set m \<and> normalizeKey k' = x \<longrightarrow> v' = v"
    using "2.prems"(1) by auto
  have "(\<exists>k'. (k', v) \<in> set m \<and> normalizeKey k' = x)
        \<or> map_of (AList.update (normalizeKey k) w fs) x = Some v"
  proof (cases "normalizeKey k = x")
    case True
    with "2.prems"(1) have "w = v" by auto
    with True show ?thesis by (simp add: update_conv')
  next
    case False
    with "2.prems"(2) show ?thesis by (auto simp add: update_conv')
  qed
  with same show ?case by (simp add: "2.IH")
qed

lemma copyMap_distinct:
  "distinct (map fst fs) \<Longrightarrow> distinct (map fst (copyMap mp fs))"
  by (induction mp fs rule: copyMap.induct) (auto simp add: distinct_update)

lemma copyMap_map_of:
  "map_of (copyMap mp fs) = map_of (rev (map (\<lambda>(k, v). (normalizeKey k, v)) mp) @ fs)"
proof (induction mp fs rule: copyMap.induct)
  case (1 fs)
  then show ?case by simp
next
  case (2 k v m fs)
  show ?case
    by (simp add: "2.IH" update_conv' map_add_def fun_eq_iff split: option.split)
qed

text \<open>
  C5, as the claim states it, fails in two ways. A \<open>map[string]string\<close> is a key to value
  mapping and the only element after the message, yet the classifier does not take the
  branch: the map is a leftover and there is no field. And of a \<open>map[string]any\<close> with the
  keys \<open>a\<close> and \<open>a:\<close>, which normalise to the same key, one entry only reaches the fields,
  whichever is visited first.
\<close>

theorem parseArgs_single_map_counterexample:
  "parseArgs [VStr ''m'', VStrMap [(''a'', ''b'')]] =
     \<lparr>msg = VStr ''m'', fieldMap = [], dataJSON = [], errField = None,
      extra = [VStrMap [(''a'', ''b'')]]\<rparr>
   \<and> fieldMap (parseArgs [VStr ''m'', VMap [(''a'', VInt 1), (''a:'', VInt 2)]]) = [(''a'', VInt 2)]
   \<and> fieldMap (parseArgs [VStr ''m'', VMap [(''a:'', VInt 2), (''a'', VInt 1)]]) = [(''a'', VInt 1)]"
  by code_simp

text \<open>
  C5, amended. When the message is followed by exactly one element and that element is of
  the type \<open>map[string]any\<close>, there are no raw-data blobs, no trailing error and no
  leftovers, for every message and every map. Each entry is written to the fields under
  its normalised key, in the order in which the map is visited, a later entry replacing an
  earlier one of the same normalised key: the fields are the map from the normalised keys
  in which the entry visited last wins. So the keys of the fields are the normalised keys
  of the map, each once, and an entry whose normalised key carries one value only is found
  under it. A map of another type, here a \<open>map[string]string\<close>, does not take the branch and
  is a leftover.
\<close>

theorem parseArgs_single_map:
  "msg (parseArgs [m, VMap mp]) = m
   \<and> dataJSON (parseArgs [m, VMap mp]) = []
   \<and> errField (parseArgs [m, VMap mp]) = None
   \<and> extra (parseArgs [m, VMap mp]) = []
   \<and> map_of (fieldMap (parseArgs [m, VMap mp])) =
       map_of (rev (map (\<lambda>(k, v). (normalizeKey k, v)) mp))
   \<and> fst ` set (fieldMap (parseArgs [m, VMap mp])) = normalizeKey ` fst ` set mp
   \<and> distinct (map fst (fieldMap (parseArgs [m, VMap mp])))
   \<and> (\<forall>k v. (k, v) \<in> set mp \<and>
          (\<forall>k' v'. (k', v') \<in> set mp \<and> normalizeKey k' = normalizeKey k \<longrightarrow> v' = v)
        \<longrightarrow> map_of (fieldMap (parseArgs [m, VMap mp])) (normalizeKey k) = Some v)
   \<and> parseArgs [m, VStrMap sm] =
       \<lparr>msg = m, fieldMap = [], dataJSON = [], errField = None, extra = [VStrMap sm]\<rparr>"
proof -
  have p: "parseArgs [m, VMap mp] =
      \<lparr>msg = m, fieldMap = copyMap mp [], dataJSON = [], errField = None, extra = []\<rparr>"
    by (simp add: parseArgs_def)
  have l: "\<forall>k v. (k, v) \<in> set mp \<and>
          (\<forall>k' v'. (k', v') \<in> set mp \<and> normalizeKey k' = normalizeKey k \<longrightarrow> v' = v)
        \<longrightarrow> map_of (copyMap mp []) (normalizeKey k) = Some v"
  proof (intro allI impI)
    fix k v
    assume a: "(k, v) \<in> set mp \<and>
          (\<forall>k' v'. (k', v') \<in> set mp \<and> normalizeKey k' = normalizeKey k \<longrightarrow> v' = v)"
    show "map_of (copyMap mp []) (normalizeKey k) = Some v"
    proof (rule copyMap_lookup)
      show "\<forall>k' v'. (k', v') \<in> set mp \<and> normalizeKey k' = normalizeKey k \<longrightarrow> v' = v"
        using a by blast
      show "(\<exists>k'. (k', v) \<in> set mp \<and> normalizeKey k' = normalizeKey k)
            \<or> map_of [] (normalizeKey k) = Some v"
        using a by blast
    qed
  qed
  have d: "distinct (map fst (copyMap mp []))" by (simp add: copyMap_distinct)
  have mo: "map_of (copyMap mp []) = map_of (rev (map (\<lambda>(k, v). (normalizeKey k, v)) mp))"
    by (simp add: copyMap_map_of)
  have sm: "parseArgs [m, VStrMap sm] =
       \<lparr>msg = m, fieldMap = [], dataJSON = [], errField = None, extra = [VStrMap sm]\<rparr>"
    by (simp add: parseArgs_def detachError_def)
  show ?thesis using l d mo sm by (simp add: p copyMap_keys)
qed

text \<open>
  A map of two entries; the JSON text \<open>[1]\<close> stays a field value and is not taken as data.
\<close>

theorem parseArgs_single_map_witness:
  "parseArgs [VStr ''m'', VMap [(''a:'', VInt 1), ('' b '', VStr ''[1]'')]] =
     \<lparr>msg = VStr ''m'', fieldMap = [(''a'', VInt 1), (''b'', VStr ''[1]'')],
      dataJSON = [], errField = None, extra = []\<rparr>
   \<and> map_of (fieldMap (parseArgs [VStr ''m'', VMap [(''a:'', VInt 1), ('' b '', VStr ''[1]'')]])) ''a''
       = Some (VInt 1)"
proof -
  let ?mp = "[(''a:'', VInt 1), ('' b '', VStr ''[1]'')]"
  have n: "normalizeKey ''a:'' = ''a''" "normalizeKey '' b '' = ''b''" by code_simp+
  have e: "parseArgs [VStr ''m'', VMap ?mp] =
     \<lparr>msg = VStr ''m'', fieldMap = [(''a'', VInt 1), (''b'', VStr ''[1]'')],
      dataJSON = [], errField = None, extra = []\<rparr>"
    by code_simp
  have h: "(''a:'', VInt 1) \<in> set ?mp \<and>
      (\<forall>k' v'. (k', v') \<in> set ?mp \<and> normalizeKey k' = normalizeKey ''a:'' \<longrightarrow> v' = VInt 1)"
    by (auto simp add: n)
  from parseArgs_single_map [of "VStr ''m''" ?mp] h
  have "map_of (fieldMap (parseArgs [VStr ''m'', VMap ?mp])) (normalizeKey ''a:'') = Some (VInt 1)"
    by blast
  with e n show ?thesis by simp
qed

lemma extractData_filter:
  "extractData vs ds kv =
     (ds @ map trimmedText (filter isJSONText vs), kv @ filter (\<lambda>v. \<not> isJSONText v) vs)"
  by (induction vs ds kv rule: extractData.induct)
     (simp_all add: isJSONText_def trimmedText_def Let_def)

lemma detachError_fst:
  "fst (detachError kv) =
     (if kv \<noteq> [] \<and> odd (length kv) then (case last kv of VErr e \<Rightarrow> Some e | _ \<Rightarrow> None) else None)"
  by (simp add: detachError_def odd_iff_mod_2_eq_one split: val.split)

lemma detachError_snd:
  "kv \<noteq> [] \<Longrightarrow> odd (length kv) \<Longrightarrow> last kv = VErr e \<Longrightarrow> detachError kv = (Some e, butlast kv)"
  by (simp add: detachError_def odd_iff_mod_2_eq_one)

lemma parseArgs_general:
  "\<forall>mp. rest \<noteq> [VMap mp] \<Longrightarrow>
   parseArgs (m # rest) =
     (let (ds, kv0) = extractData rest [] [];
          (ef, kv) = detachError kv0;
          (fs, ex) = pairKV kv [] [];
          ex' = (if length kv mod 2 = 1 then ex @ [last kv] else ex)
      in \<lparr>msg = m, fieldMap = fs, dataJSON = ds, errField = ef, extra = ex'\<rparr>)"
  by (simp add: parseArgs_def split: list.split val.split)

lemma parseArgs_errField:
  "errField (parseArgs (m # rest)) = fst (detachError (filter (\<lambda>v. \<not> isJSONText v) rest))"
proof (cases "\<exists>mp. rest = [VMap mp]")
  case True
  then obtain mp where "rest = [VMap mp]" ..
  then show ?thesis
    by (simp add: parseArgs_def detachError_def isJSONText_def)
next
  case False
  then have "\<forall>mp. rest \<noteq> [VMap mp]" by simp
  then show ?thesis
    by (simp add: parseArgs_general extractData_filter Let_def split: prod.split)
qed

text \<open>
  C2. The trailing error is looked for in the list \<open>kv\<close> that remains of \<open>rest\<close> once every
  string whose trimmed text is valid JSON has been taken out: the error field is set
  exactly when \<open>kv\<close> is not empty, its length is odd and its last element is an error, and
  it is then the text of that error. In that case the element is removed: the pairing
  runs on \<open>kv\<close> without its last element. In particular an error followed by JSON texts
  only (after an even number of other elements) is the trailing error.
\<close>

theorem parseArgs_trailing_error:
  "errField (parseArgs (m # rest)) =
     (if filter (\<lambda>v. \<not> isJSONText v) rest \<noteq> [] \<and> odd (length (filter (\<lambda>v. \<not> isJSONText v) rest))
      then (case last (filter (\<lambda>v. \<not> isJSONText v) rest) of VErr e \<Rightarrow> Some e | _ \<Rightarrow> None)
      else None)
   \<and> (filter (\<lambda>v. \<not> isJSONText v) rest \<noteq> [] \<and> odd (length (filter (\<lambda>v. \<not> isJSONText v) rest))
        \<and> last (filter (\<lambda>v. \<not> isJSONText v) rest) = VErr e
      \<longrightarrow> parseArgs (m # rest) =
            \<lparr>msg = m,
             fieldMap = fst (pairKV (butlast (filter (\<lambda>v. \<not> isJSONText v) rest)) [] []),
             dataJSON = map trimmedText (filter isJSONText rest),
             errField = Some e,
             extra = snd (pairKV (butlast (filter (\<lambda>v. \<not> isJSONText v) rest)) [] [])\<rparr>)
   \<and> ((\<forall>j. j \<in> set js \<longrightarrow> isJSONText j) \<and> even (length (filter (\<lambda>v. \<not> isJSONText v) pre))
      \<longrightarrow> errField (parseArgs (m # pre @ [VErr e] @ js)) = Some e)"
proof -
  let ?kv = "filter (\<lambda>v. \<not> isJSONText v) rest"
  have a: "errField (parseArgs (m # rest)) =
     (if ?kv \<noteq> [] \<and> odd (length ?kv)
      then (case last ?kv of VErr e \<Rightarrow> Some e | _ \<Rightarrow> None) else None)"
    by (simp only: parseArgs_errField detachError_fst)
  have b: "?kv \<noteq> [] \<and> odd (length ?kv) \<and> last ?kv = VErr e
      \<longrightarrow> parseArgs (m # rest) =
            \<lparr>msg = m, fieldMap = fst (pairKV (butlast ?kv) [] []),
             dataJSON = map trimmedText (filter isJSONText rest),
             errField = Some e, extra = snd (pairKV (butlast ?kv) [] [])\<rparr>"
  proof
    assume h: "?kv \<noteq> [] \<and> odd (length ?kv) \<and> last ?kv = VErr e"
    have nm: "\<forall>mp. rest \<noteq> [VMap mp]"
    proof (intro allI notI)
      fix mp assume "rest = [VMap mp]"
      with h show False by (simp add: isJSONText_def)
    qed
    from h have ev: "length (butlast ?kv) mod 2 \<noteq> 1"
      by (cases "length ?kv") (auto simp add: odd_iff_mod_2_eq_one)
    from h have d: "detachError ?kv = (Some e, butlast ?kv)"
      by (simp add: detachError_snd)
    show "parseArgs (m # rest) =
            \<lparr>msg = m, fieldMap = fst (pairKV (butlast ?kv) [] []),
             dataJSON = map trimmedText (filter isJSONText rest),
             errField = Some e, extra = snd (pairKV (butlast ?kv) [] [])\<rparr>"
      using ev by (simp add: parseArgs_general [OF nm] extractData_filter d split: prod.split)
  qed
  have c: "(\<forall>j. j \<in> set js \<longrightarrow> isJSONText j) \<and> even (length (filter (\<lambda>v. \<not> isJSONText v) pre))
      \<longrightarrow> errField (parseArgs (m # pre @ [VErr e] @ js)) = Some e"
  proof
    assume h: "(\<forall>j. j \<in> set js \<longrightarrow> isJSONText j) \<and> even (length (filter (\<lambda>v. \<not> isJSONText v) pre))"
    then have "filter (\<lambda>v. \<not> isJSONText v) js = []" by (simp add: filter_empty_conv)
    then have "filter (\<lambda>v. \<not> isJSONText v) (pre @ [VErr e] @ js)
        = filter (\<lambda>v. \<not> isJSONText v) pre @ [VErr e]"
      by (simp add: isJSONText_def)
    with h show "errField (parseArgs (m # pre @ [VErr e] @ js)) = Some e"
      by (simp add: parseArgs_errField detachError_fst)
  qed
  from a b c show ?thesis by blast
qed

text \<open>
  Scenario A of the specification, and an error followed by two JSON texts.
\<close>

theorem parseArgs_trailing_error_witness:
  "parseArgs [VStr ''msg'', VStr ''name'', VStr ''Jack'', VStr ''age'', VInt 18, VErr ''boom''] =
     \<lparr>msg = VStr ''msg'', fieldMap = [(''name'', VStr ''Jack''), (''age'', VInt 18)],
      dataJSON = [], errField = Some ''boom'', extra = []\<rparr>
   \<and> errField (parseArgs [VStr ''m'', VErr ''boom'', VStr ''{\"a\":1}'', VStr ''[]'']) = Some ''boom''"
proof -
  let ?rest = "[VStr ''name'', VStr ''Jack'', VStr ''age'', VInt 18, VErr ''boom'']"
  have f: "filter (\<lambda>v. \<not> isJSONText v) ?rest = ?rest" "filter isJSONText ?rest = []"
    by code_simp+
  have p: "pairKV [VStr ''name'', VStr ''Jack'', VStr ''age'', VInt 18] [] []
      = ([(''name'', VStr ''Jack''), (''age'', VInt 18)], [])"
    by code_simp
  have j: "\<forall>j. j \<in> set [VStr ''{\"a\":1}'', VStr ''[]''] \<longrightarrow> isJSONText j"
  proof -
    have "isJSONText (VStr ''{\"a\":1}'')" "isJSONText (VStr ''[]'')" by code_simp+
    then show ?thesis by simp
  qed
  have e: "even (length (filter (\<lambda>v. \<not> isJSONText v) ([]::val list)))" by simp
  from parseArgs_trailing_error [where m = "VStr ''msg''" and rest = ?rest and e = "''boom''"] f p
  have 1: "parseArgs (VStr ''msg'' # ?rest) =
     \<lparr>msg = VStr ''msg'', fieldMap = [(''name'', VStr ''Jack''), (''age'', VInt 18)],
      dataJSON = [], errField = Some ''boom'', extra = []\<rparr>"
    by simp
  from parseArgs_trailing_error [where m = "VStr ''m''" and rest = "[]"
      and js = "[VStr ''{\"a\":1}'', VStr ''[]'']" and pre = "[]" and e = "''boom''"] j e
  have "errField (parseArgs (VStr ''m'' # [] @ [VErr ''boom''] @ [VStr ''{\"a\":1}'', VStr ''[]'']))
      = Some ''boom''"
    by blast
  then have 2: "errField (parseArgs [VStr ''m'', VErr ''boom'', VStr ''{\"a\":1}'', VStr ''[]''])
      = Some ''boom''"
    by simp
  from 1 2 show ?thesis by simp
qed

lemma keyedPairs_set:
  "set (keyedPairs ps) = {(normalizeKey k, v) | k v. (VStr k, v) \<in> set ps}"
  by (induction ps rule: keyedPairs.induct) auto

lemma pairKV_map_of:
  "map_of (fst (pairKV kv fs ex)) = map_of (rev (keyedPairs (pairsOf kv)) @ fs)"
  by (induction kv fs ex rule: pairKV.induct)
     (simp_all add: update_conv' map_add_def fun_eq_iff split: option.split)

lemma pairKV_keys:
  "fst ` set (fst (pairKV kv fs ex)) = fst ` set (keyedPairs (pairsOf kv)) \<union> fst ` set fs"
  by (induction kv fs ex rule: pairKV.induct) (auto simp add: dom_update)

lemma parseArgs_fieldMap:
  "\<forall>mp. rest \<noteq> [VMap mp] \<Longrightarrow>
   fieldMap (parseArgs (m # rest)) =
     fst (pairKV (snd (detachError (filter (\<lambda>v. \<not> isJSONText v) rest))) [] [])"
  by (simp add: parseArgs_general extractData_filter Let_def split: prod.split)

lemma hasSuffix_append: "hasSuffix w (u @ w)"
  by (simp add: hasSuffix_def)

lemma hasSuffix_iff: "hasSuffix w s = (\<exists>u. s = u @ w)"
proof
  assume "hasSuffix w s"
  then have "s = take (length s - length w) s @ w"
    by (metis append_take_drop_id hasSuffix_def)
  then show "\<exists>u. s = u @ w" ..
next
  assume "\<exists>u. s = u @ w"
  then show "hasSuffix w s" by (auto simp: hasSuffix_append)
qed

lemma TrimSuffix_append: "TrimSuffix (u @ w) w = u"
  by (simp add: TrimSuffix_def hasSuffix_append)

lemma TrimSuffix_none: "\<not> hasSuffix w s \<Longrightarrow> TrimSuffix s w = s"
  by (simp add: TrimSuffix_def)

text \<open>
  C6, as the claim states it, fails: the key \<open>a\<close>, a full-width colon, an ASCII colon has
  no surrounding white space and is stored as \<open>a\<close>. Two trailing colons are removed.
\<close>

theorem normalizeKey_counterexample:
  "TrimSpace (''a'' @ fullwidthColon @ '':'') = ''a'' @ fullwidthColon @ '':''
   \<and> normalizeKey (''a'' @ fullwidthColon @ '':'') = ''a''"
  by code_simp

text \<open>
  C6, amended. The stored key is the trimmed key without one trailing ASCII colon, if it
  has one, and then without one trailing full-width colon, if it has one: a trimmed key
  that ends in a full-width colon followed by an ASCII colon loses both, any other loses
  at most one colon, and a key that ends in neither is only trimmed. A string key \<open>k\<close>
  paired with \<open>v\<close> (neither of them a JSON text) is stored under \<open>normalizeKey k\<close>. For every
  list \<open>kv\<close> that the pairing loop runs on, the fields it writes are the map from the
  normalised keys of the pairs of \<open>kv\<close> that have a string key to their values, a later
  pair replacing an earlier one of the same normalised key; the keys of the fields are
  these normalised keys and no other. The same holds of the fields of a whole call, for the
  list left after the JSON texts and the trailing error are taken out.
\<close>

theorem normalizeKey_colons:
  "(hasSuffix (fullwidthColon @ '':'') (TrimSpace k)
      \<longrightarrow> normalizeKey k @ fullwidthColon @ '':'' = TrimSpace k)
   \<and> (hasSuffix '':'' (TrimSpace k) \<and> \<not> hasSuffix (fullwidthColon @ '':'') (TrimSpace k)
      \<longrightarrow> normalizeKey k @ '':'' = TrimSpace k)
   \<and> (\<not> hasSuffix '':'' (TrimSpace k) \<and> hasSuffix fullwidthColon (TrimSpace k)
      \<longrightarrow> normalizeKey k @ fullwidthColon = TrimSpace k)
   \<and> (\<not> hasSuffix '':'' (TrimSpace k) \<and> \<not> hasSuffix fullwidthColon (TrimSpace k)
      \<longrightarrow> normalizeKey k = TrimSpace k)
   \<and> (\<not> isJSONText (VStr k) \<and> \<not> isJSONText v
      \<longrightarrow> fieldMap (parseArgs [m, VStr k, v]) = [(normalizeKey k, v)])
   \<and> map_of (fst (pairKV kv [] [])) = map_of (rev (keyedPairs (pairsOf kv)))
   \<and> fst ` set (fst (pairKV kv [] [])) =
       {normalizeKey k' | k' v'. (VStr k', v') \<in> set (pairsOf kv)}
   \<and> ((\<forall>mp. rest \<noteq> [VMap mp]) \<longrightarrow>
        map_of (fieldMap (parseArgs (m # rest))) =
          map_of (rev (keyedPairs (pairsOf
                   (snd (detachError (filter (\<lambda>v. \<not> isJSONText v) rest)))))))"
proof -
  define t where "t = TrimSpace k"
  have nk: "normalizeKey k = TrimSuffix (TrimSuffix t '':'') fullwidthColon"
    by (simp add: normalizeKey_def t_def)
  have c1: "hasSuffix (fullwidthColon @ '':'') t \<longrightarrow> normalizeKey k @ fullwidthColon @ '':'' = t"
  proof
    assume "hasSuffix (fullwidthColon @ '':'') t"
    then obtain u where u: "t = u @ fullwidthColon @ '':''" by (auto simp: hasSuffix_iff)
    have "TrimSuffix t '':'' = u @ fullwidthColon"
      using TrimSuffix_append [of "u @ fullwidthColon" "'':''"] u by simp
    then have "normalizeKey k = u" by (simp add: nk TrimSuffix_append)
    with u show "normalizeKey k @ fullwidthColon @ '':'' = t" by simp
  qed
  have c2: "hasSuffix '':'' t \<and> \<not> hasSuffix (fullwidthColon @ '':'') t
      \<longrightarrow> normalizeKey k @ '':'' = t"
  proof
    assume a: "hasSuffix '':'' t \<and> \<not> hasSuffix (fullwidthColon @ '':'') t"
    then obtain u where u: "t = u @ '':''" by (auto simp: hasSuffix_iff)
    have "\<not> hasSuffix fullwidthColon u"
    proof
      assume "hasSuffix fullwidthColon u"
      then obtain w where "u = w @ fullwidthColon" by (auto simp: hasSuffix_iff)
      with u have "t = w @ fullwidthColon @ '':''" by simp
      then have "hasSuffix (fullwidthColon @ '':'') t" by (metis hasSuffix_append)
      with a show False by simp
    qed
    moreover have "TrimSuffix t '':'' = u" by (simp add: u TrimSuffix_append)
    ultimately have "normalizeKey k = u" by (simp add: nk TrimSuffix_none)
    with u show "normalizeKey k @ '':'' = t" by simp
  qed
  have c3: "\<not> hasSuffix '':'' t \<and> hasSuffix fullwidthColon t \<longrightarrow> normalizeKey k @ fullwidthColon = t"
  proof
    assume a: "\<not> hasSuffix '':'' t \<and> hasSuffix fullwidthColon t"
    then obtain u where u: "t = u @ fullwidthColon" by (auto simp: hasSuffix_iff)
    from a have "TrimSuffix t '':'' = t" by (simp add: TrimSuffix_none)
    then have "normalizeKey k = u" by (simp add: nk u TrimSuffix_append)
    with u show "normalizeKey k @ fullwidthColon = t" by simp
  qed
  have c4: "\<not> hasSuffix '':'' t \<and> \<not> hasSuffix fullwidthColon t \<longrightarrow> normalizeKey k = t"
    by (simp add: nk TrimSuffix_none)
  have c5: "\<not> isJSONText (VStr k) \<and> \<not> isJSONText v
      \<longrightarrow> fieldMap (parseArgs [m, VStr k, v]) = [(normalizeKey k, v)]"
    by (cases v) (auto simp add: parseArgs_def isJSONText_def detachError_def Let_def)
  have c6: "map_of (fst (pairKV kv [] [])) = map_of (rev (keyedPairs (pairsOf kv)))"
    by (simp add: pairKV_map_of)
  have c7: "fst ` set (fst (pairKV kv [] [])) =
       {normalizeKey k' | k' v'. (VStr k', v') \<in> set (pairsOf kv)}"
    by (force simp add: pairKV_keys keyedPairs_set)
  have c8: "(\<forall>mp. rest \<noteq> [VMap mp]) \<longrightarrow>
        map_of (fieldMap (parseArgs (m # rest))) =
          map_of (rev (keyedPairs (pairsOf
                   (snd (detachError (filter (\<lambda>v. \<not> isJSONText v) rest))))))"
    by (simp add: parseArgs_fieldMap pairKV_map_of)
  from c1 c2 c3 c4 c5 c6 c7 c8 show ?thesis unfolding t_def by blast
qed

text \<open>
  One ASCII colon; one full-width colon inside white space; of two ASCII colons only one
  goes; the key of a pair; the key of a second pair, after a pair without a string key.
\<close>

theorem normalizeKey_colons_witness:
  "normalizeKey ''name:'' = ''name''
   \<and> normalizeKey ('' name'' @ fullwidthColon @ '' '') = ''name''
   \<and> normalizeKey ''a::'' = ''a:''
   \<and> fieldMap (parseArgs [VStr ''msg'', VStr ''name:'', VStr ''Jack'']) = [(''name'', VStr ''Jack'')]
   \<and> map_of (fieldMap (parseArgs [VStr ''msg'', VStr ''a:'', VInt 1, VInt 7, VInt 8,
                                   VStr '' b: '', VInt 2])) ''b'' = Some (VInt 2)"
proof -
  let ?rest = "[VStr ''a:'', VInt 1, VInt 7, VInt 8, VStr '' b: '', VInt 2]"
  have e: "\<forall>mp. ?rest \<noteq> [VMap mp]" by simp
  have f: "map_of (rev (keyedPairs (pairsOf
             (snd (detachError (filter (\<lambda>v. \<not> isJSONText v) ?rest)))))) ''b'' = Some (VInt 2)"
    by code_simp
  from normalizeKey_colons [where m = "VStr ''msg''" and rest = ?rest] e
  have "map_of (fieldMap (parseArgs (VStr ''msg'' # ?rest))) =
          map_of (rev (keyedPairs (pairsOf
                   (snd (detachError (filter (\<lambda>v. \<not> isJSONText v) ?rest))))))"
    by blast
  with f have g: "map_of (fieldMap (parseArgs (VStr ''msg'' # ?rest))) ''b'' = Some (VInt 2)"
    by simp
  have a: "hasSuffix '':'' (TrimSpace ''name:'')"
    "\<not> hasSuffix (fullwidthColon @ '':'') (TrimSpace ''name:'')"
    "TrimSpace ''name:'' = ''name:''"
    by code_simp+
  have b: "\<not> hasSuffix '':'' (TrimSpace ('' name'' @ fullwidthColon @ '' ''))"
    "hasSuffix fullwidthColon (TrimSpace ('' name'' @ fullwidthColon @ '' ''))"
    "TrimSpace ('' name'' @ fullwidthColon @ '' '') = ''name'' @ fullwidthColon"
    by code_simp+
  have c: "hasSuffix '':'' (TrimSpace ''a::'')"
    "\<not> hasSuffix (fullwidthColon @ '':'') (TrimSpace ''a::'')"
    "TrimSpace ''a::'' = ''a::''"
    by code_simp+
  have d: "\<not> isJSONText (VStr ''name:'')" "\<not> isJSONText (VStr ''Jack'')"
    by code_simp+
  show ?thesis
    using normalizeKey_colons [of "''name:''" "VStr ''Jack''" "VStr ''msg''"]
      normalizeKey_colons [of "'' name'' @ fullwidthColon @ '' ''"]
      normalizeKey_colons [of "''a::''"] a b c d g
    by simp
qed

section \<open>Properties of the JSON encoder\<close>

lemma writeKVs_Inr: "writeKVs b kvs = Inr b' \<Longrightarrow> b' = b @ kvs"
  by (induction b kvs rule: writeKVs.induct)
     (auto simp add: writeKV_def split: option.splits)

lemma MarshalJSON_Inr:
  assumes "MarshalJSON e = Inr obj"
  shows "obj = [(''ts'', VStr (Ts e)), (''lv'', VStr (Lv e)), (''caller'', VStr (Caller e)),
                (''msg'', Msg e)]
              @ map (\<lambda>k. (k, mapIndex (Extra e) k)) (extraKeys e)
              @ (case Err e of None \<Rightarrow> [] | Some s \<Rightarrow> [(''err'', VStr s)])"
proof -
  let ?fixed = "[(''ts'', VStr (Ts e)), (''lv'', VStr (Lv e)), (''caller'', VStr (Caller e)),
                (''msg'', Msg e)]"
  let ?ex = "map (\<lambda>k. (k, mapIndex (Extra e) k)) (extraKeys e)"
  from assms obtain b where b: "writeKVs [] ?fixed = Inr b"
    by (cases "writeKVs [] ?fixed") (simp_all add: MarshalJSON_def del: writeKVs.simps)
  have b_eq: "b = ?fixed" using writeKVs_Inr [OF b] by simp
  from assms b obtain b' where b': "writeKVs b ?ex = Inr b'"
    by (cases "writeKVs b ?ex") (simp_all add: MarshalJSON_def del: writeKVs.simps)
  then have b'_eq: "b' = b @ ?ex" by (rule writeKVs_Inr)
  show ?thesis
  proof (cases "Err e")
    case None
    with assms b b' have "obj = b'" by (simp add: MarshalJSON_def del: writeKVs.simps)
    with None b_eq b'_eq show ?thesis by simp
  next
    case (Some s)
    with assms b b' have "writeKV b' ''err'' (VStr s) = Inr obj"
      by (simp add: MarshalJSON_def del: writeKVs.simps)
    then have "obj = b' @ [(''err'', VStr s)]" by (simp add: writeKV_def)
    with Some b_eq b'_eq show ?thesis by simp
  qed
qed

lemma extraKeys_sorted: "sorted (extraKeys e)"
  by (simp add: extraKeys_def)

lemma extraKeys_set: "set (extraKeys e) = {k \<in> fst ` set (Extra e). \<not> reservedKey k}"
  by (auto simp add: extraKeys_def)

lemma extraKeys_distinct: "distinct (map fst (Extra e)) \<Longrightarrow> distinct (extraKeys e)"
  by (simp add: extraKeys_def)

lemma promoteFields_keys: "fst ` set (promoteFields fs m) = fst ` set fs \<union> fst ` set m"
  by (induction fs m rule: promoteFields.induct) (auto simp add: dom_update)

lemma promoteFields_distinct:
  "distinct (map fst m) \<Longrightarrow> distinct (map fst (promoteFields fs m))"
  by (induction fs m rule: promoteFields.induct) (auto simp add: distinct_update)

lemma Extra_keys:
  "fst ` set (Extra (buildJSONEntry now lv caller args)) =
     fst ` set (fieldMap (parseArgs args))
     \<union> (if dataJSON (parseArgs args) \<noteq> [] then {''data''} else {})
     \<union> (if extra (parseArgs args) \<noteq> [] then {''args''} else {})"
proof -
  have "length (dataJSON (parseArgs args)) = 1 \<or> 1 < length (dataJSON (parseArgs args))
        \<or> dataJSON (parseArgs args) = []"
    by (cases "dataJSON (parseArgs args)") auto
  then show ?thesis
    by (auto simp add: buildJSONEntry_def Let_def dom_update promoteFields_keys)
qed

lemma Extra_distinct: "distinct (map fst (Extra (buildJSONEntry now lv caller args)))"
  by (simp add: buildJSONEntry_def Let_def distinct_update promoteFields_distinct)

lemma Extra_data:
  "dataJSON (parseArgs args) \<noteq> [] \<Longrightarrow>
   map_of (Extra (buildJSONEntry now lv caller args)) ''data'' =
     Some (case dataJSON (parseArgs args) of
             [d] \<Rightarrow> mustUnmarshalAny d
           | ds \<Rightarrow> VSlice (map mustUnmarshalAny ds))"
  by (cases "dataJSON (parseArgs args)"; cases "tl (dataJSON (parseArgs args))")
     (auto simp add: buildJSONEntry_def Let_def update_conv')

lemma Extra_args:
  "extra (parseArgs args) \<noteq> [] \<Longrightarrow>
   map_of (Extra (buildJSONEntry now lv caller args)) ''args'' = Some (VSlice (extra (parseArgs args)))"
  by (simp add: buildJSONEntry_def Let_def update_conv')

lemma map_of_keyed: "k \<in> set ks \<Longrightarrow> map_of (map (\<lambda>k. (k, f k)) ks @ r) k = Some (f k)"
  by (induction ks) auto

lemma jsonMarshalEntry_Inr: "jsonMarshalEntry e = Inr b \<Longrightarrow> MarshalJSON e = Inr b"
  by (simp add: jsonMarshalEntry_def split: sum.splits)

lemma entry_keys:
  assumes "jsonMarshalEntry (buildJSONEntry now lv caller args) = Inr b"
  shows "map fst b = [''ts'', ''lv'', ''caller'', ''msg'']
           @ extraKeys (buildJSONEntry now lv caller args)
           @ (case errField (parseArgs args) of None \<Rightarrow> [] | Some e \<Rightarrow> [''err''])"
proof -
  have "Err (buildJSONEntry now lv caller args) = errField (parseArgs args)"
    by (simp add: buildJSONEntry_def Let_def)
  then show ?thesis
    using MarshalJSON_Inr [OF jsonMarshalEntry_Inr [OF assms]]
    by (simp add: comp_def split: option.split)
qed

text \<open>
  C1, as the claim states it, fails. The call has one field \<open>zeta\<close>, one raw-data blob and
  one leftover; the claim puts the keys after \<open>msg\<close> in the order \<open>zeta\<close>, \<open>data\<close>, \<open>args\<close>, and
  the line printed has them in the order \<open>args\<close>, \<open>data\<close>, \<open>zeta\<close>.
\<close>

theorem json_key_order_counterexample:
  "parseArgs [VStr ''m'', VStr ''zeta'', VInt 1, VStr ''{\"a\":1}'', VInt 5] =
     \<lparr>msg = VStr ''m'', fieldMap = [(''zeta'', VInt 1)], dataJSON = [''{\"a\":1}''],
      errField = None, extra = [VInt 5]\<rparr>
   \<and> logWithCaller ''2026-01-02 03:04:05'' ''main.go:7'' cfg0 INFO
        [VStr ''m'', VStr ''zeta'', VInt 1, VStr ''{\"a\":1}'', VInt 5] =
      [ResolveCaller, BuildJSONEntry, JSONMarshal,
       Println (JSONLine
         [(''ts'', VStr ''2026-01-02 03:04:05''), (''lv'', VStr ''INFO''),
          (''caller'', VStr ''main.go:7''), (''msg'', VStr ''m''),
          (''args'', VSlice [VInt 5]), (''data'', VJSON ''{\"a\":1}''),
          (''zeta'', VInt 1)])]"
  by code_simp

text \<open>
  C1, amended. For every log call rendered in JSON format, the keys of the object printed
  are \<open>ts\<close>, \<open>lv\<close>, \<open>caller\<close>, \<open>msg\<close>, then, in one ascending bytewise lexicographic sequence
  without repetition, the keys of the fields other than \<open>ts\<close>, \<open>lv\<close>, \<open>caller\<close>, \<open>msg\<close>, \<open>err\<close>
  together with \<open>data\<close> (if there is a raw-data blob) and \<open>args\<close> (if there is a leftover),
  then \<open>err\<close>, last, if a trailing error was detected. When the entry cannot be encoded, the
  line printed is the diagnostic one, with the keys \<open>ts\<close>, \<open>lv\<close>, \<open>caller\<close>, \<open>msg\<close>, \<open>err\<close>.
\<close>

theorem json_key_order:
  "fmt c = JSON \<and> enabled lv (level c) \<longrightarrow>
     (\<exists>obj. logWithCaller now caller c lv args =
               [ResolveCaller, BuildJSONEntry, JSONMarshal, Println (JSONLine obj)]
        \<and> (case jsonMarshalEntry (buildJSONEntry now lv caller args) of
             Inl err \<Rightarrow> map fst obj = [''ts'', ''lv'', ''caller'', ''msg'', ''err'']
           | Inr b \<Rightarrow>
               obj = b \<and>
               (\<exists>ks. map fst obj =
                        [''ts'', ''lv'', ''caller'', ''msg''] @ ks
                        @ (case errField (parseArgs args) of None \<Rightarrow> [] | Some e \<Rightarrow> [''err''])
                  \<and> sorted ks \<and> distinct ks
                  \<and> set ks =
                      {k \<in> fst ` set (fieldMap (parseArgs args))
                            \<union> (if dataJSON (parseArgs args) \<noteq> [] then {''data''} else {})
                            \<union> (if extra (parseArgs args) \<noteq> [] then {''args''} else {}).
                       \<not> reservedKey k})))"
proof
  assume h: "fmt c = JSON \<and> enabled lv (level c)"
  let ?e = "buildJSONEntry now lv caller args"
  show "\<exists>obj. logWithCaller now caller c lv args =
               [ResolveCaller, BuildJSONEntry, JSONMarshal, Println (JSONLine obj)]
        \<and> (case jsonMarshalEntry ?e of
             Inl err \<Rightarrow> map fst obj = [''ts'', ''lv'', ''caller'', ''msg'', ''err'']
           | Inr b \<Rightarrow>
               obj = b \<and>
               (\<exists>ks. map fst obj =
                        [''ts'', ''lv'', ''caller'', ''msg''] @ ks
                        @ (case errField (parseArgs args) of None \<Rightarrow> [] | Some e \<Rightarrow> [''err''])
                  \<and> sorted ks \<and> distinct ks
                  \<and> set ks =
                      {k \<in> fst ` set (fieldMap (parseArgs args))
                            \<union> (if dataJSON (parseArgs args) \<noteq> [] then {''data''} else {})
                            \<union> (if extra (parseArgs args) \<noteq> [] then {''args''} else {}).
                       \<not> reservedKey k}))"
  proof (cases "jsonMarshalEntry ?e")
    case (Inl err)
    with h show ?thesis by (simp add: logWithCaller_def)
  next
    case (Inr b)
    have k: "map fst b = [''ts'', ''lv'', ''caller'', ''msg''] @ extraKeys ?e
           @ (case errField (parseArgs args) of None \<Rightarrow> [] | Some e \<Rightarrow> [''err''])"
      by (rule entry_keys [OF Inr])
    have s: "set (extraKeys ?e) =
        {k \<in> fst ` set (fieldMap (parseArgs args))
              \<union> (if dataJSON (parseArgs args) \<noteq> [] then {''data''} else {})
              \<union> (if extra (parseArgs args) \<noteq> [] then {''args''} else {}).
         \<not> reservedKey k}"
      by (simp only: extraKeys_set Extra_keys)
    have d: "distinct (extraKeys ?e)" by (simp add: extraKeys_distinct Extra_distinct)
    have t: "logWithCaller now caller c lv args =
        [ResolveCaller, BuildJSONEntry, JSONMarshal, Println (JSONLine b)]"
      using h Inr by (simp add: logWithCaller_def)
    from k s d extraKeys_sorted [of ?e]
    have "\<exists>ks. map fst b = [''ts'', ''lv'', ''caller'', ''msg''] @ ks
                        @ (case errField (parseArgs args) of None \<Rightarrow> [] | Some e \<Rightarrow> [''err''])
                  \<and> sorted ks \<and> distinct ks
                  \<and> set ks =
                      {k \<in> fst ` set (fieldMap (parseArgs args))
                            \<union> (if dataJSON (parseArgs args) \<noteq> [] then {''data''} else {})
                            \<union> (if extra (parseArgs args) \<noteq> [] then {''args''} else {}).
                       \<not> reservedKey k}"
      by blast
    with t Inr show ?thesis by simp
  qed
qed

text \<open>
  Scenario A of the specification: \<open>age\<close> before \<open>name\<close>, and \<open>err\<close> last.
\<close>

theorem json_key_order_witness:
  "\<exists>ks. map fst [(''ts'', VStr ''2026-01-02 03:04:05''), (''lv'', VStr ''INFO''),
                 (''caller'', VStr ''main.go:7''), (''msg'', VStr ''msg''),
                 (''age'', VInt 18), (''name'', VStr ''Jack''), (''err'', VStr ''boom'')]
          = [''ts'', ''lv'', ''caller'', ''msg''] @ ks @ [''err'']
       \<and> sorted ks \<and> distinct ks \<and> set ks = {''name'', ''age''}"
proof -
  let ?args = "[VStr ''msg'', VStr ''name'', VStr ''Jack'', VStr ''age'', VInt 18, VErr ''boom'']"
  let ?b = "[(''ts'', VStr ''2026-01-02 03:04:05''), (''lv'', VStr ''INFO''),
             (''caller'', VStr ''main.go:7''), (''msg'', VStr ''msg''),
             (''age'', VInt 18), (''name'', VStr ''Jack''), (''err'', VStr ''boom'')]"
  have h: "fmt cfg0 = JSON \<and> enabled INFO (level cfg0)" by code_simp
  have m: "jsonMarshalEntry (buildJSONEntry ''2026-01-02 03:04:05'' INFO ''main.go:7'' ?args) = Inr ?b"
    by code_simp
  have p: "parseArgs ?args =
     \<lparr>msg = VStr ''msg'', fieldMap = [(''name'', VStr ''Jack''), (''age'', VInt 18)],
      dataJSON = [], errField = Some ''boom'', extra = []\<rparr>"
    by code_simp
  have r: "{k \<in> {''name'', ''age''}. \<not> reservedKey k} = {''name'', ''age''}"
    by (auto simp add: reservedKey_def)
  from json_key_order [of cfg0 INFO "''2026-01-02 03:04:05''" "''main.go:7''" ?args] h
  obtain obj where
    c: "case jsonMarshalEntry (buildJSONEntry ''2026-01-02 03:04:05'' INFO ''main.go:7'' ?args) of
             Inl err \<Rightarrow> map fst obj = [''ts'', ''lv'', ''caller'', ''msg'', ''err'']
           | Inr b \<Rightarrow>
               obj = b \<and>
               (\<exists>ks. map fst obj =
                        [''ts'', ''lv'', ''caller'', ''msg''] @ ks
                        @ (case errField (parseArgs ?args) of None \<Rightarrow> [] | Some e \<Rightarrow> [''err''])
                  \<and> sorted ks \<and> distinct ks
                  \<and> set ks =
                      {k \<in> fst ` set (fieldMap (parseArgs ?args))
                            \<union> (if dataJSON (parseArgs ?args) \<noteq> [] then {''data''} else {})
                            \<union> (if extra (parseArgs ?args) \<noteq> [] then {''args''} else {}).
                       \<not> reservedKey k})"
    by blast
  from c show ?thesis
    unfolding m p by (auto simp add: r)
qed

lemma extraKeys_not_reserved: "k \<in> set (extraKeys e) \<Longrightarrow> \<not> reservedKey k"
  by (simp add: extraKeys_set)

lemma filter_keyed_reserved:
  "filter (\<lambda>(k, v). reservedKey k) (map (\<lambda>k. (k, f k)) (extraKeys e)) = []"
  by (auto simp add: filter_empty_conv extraKeys_not_reserved)

lemma extraKeys_mem:
  "k \<in> fst ` set (Extra e) \<Longrightarrow> \<not> reservedKey k \<Longrightarrow> k \<in> set (extraKeys e)"
  by (simp add: extraKeys_set)

text \<open>
  C10. In the object that encodes a log call, the members whose key is one of \<open>ts\<close>, \<open>lv\<close>,
  \<open>caller\<close>, \<open>msg\<close>, \<open>err\<close> are the fixed ones and no other (with \<open>err\<close> only for a trailing
  error): a field of the caller under such a key is left out, and no key occurs twice.
  When there is a raw-data blob, the member \<open>data\<close> is the decoded blob (or the list of the
  decoded blobs), whatever field the caller gave under \<open>data\<close>; when there is a leftover,
  the member \<open>args\<close> is the list of the leftovers, whatever field the caller gave under
  \<open>args\<close>.
\<close>

theorem reserved_and_synthetic_keys:
  "jsonMarshalEntry (buildJSONEntry now lv caller args) = Inr obj \<longrightarrow>
     distinct (map fst obj)
     \<and> filter (\<lambda>(k, v). reservedKey k) obj =
         [(''ts'', VStr now), (''lv'', VStr (Level_String lv)), (''caller'', VStr caller),
          (''msg'', parseJSONIfString (msg (parseArgs args)))]
         @ (case errField (parseArgs args) of None \<Rightarrow> [] | Some e \<Rightarrow> [(''err'', VStr e)])
     \<and> (dataJSON (parseArgs args) \<noteq> [] \<longrightarrow>
          map_of obj ''data'' =
            Some (case dataJSON (parseArgs args) of
                    [d] \<Rightarrow> mustUnmarshalAny d
                  | ds \<Rightarrow> VSlice (map mustUnmarshalAny ds)))
     \<and> (extra (parseArgs args) \<noteq> [] \<longrightarrow>
          map_of obj ''args'' = Some (VSlice (extra (parseArgs args))))"
proof
  assume a: "jsonMarshalEntry (buildJSONEntry now lv caller args) = Inr obj"
  let ?e = "buildJSONEntry now lv caller args"
  let ?fixed = "[(''ts'', VStr now), (''lv'', VStr (Level_String lv)), (''caller'', VStr caller),
          (''msg'', parseJSONIfString (msg (parseArgs args)))]"
  let ?mid = "map (\<lambda>k. (k, mapIndex (Extra ?e) k)) (extraKeys ?e)"
  let ?err = "case errField (parseArgs args) of None \<Rightarrow> [] | Some e \<Rightarrow> [(''err'', VStr e)]"
  have sel: "Ts ?e = now" "Lv ?e = Level_String lv" "Caller ?e = caller"
    "Msg ?e = parseJSONIfString (msg (parseArgs args))" "Err ?e = errField (parseArgs args)"
    by (simp_all add: buildJSONEntry_def Let_def)
  have obj: "obj = ?fixed @ ?mid @ ?err"
    using MarshalJSON_Inr [OF jsonMarshalEntry_Inr [OF a]] by (simp add: sel)
  have nr: "\<forall>k \<in> set (extraKeys ?e). \<not> reservedKey k"
    by (simp add: extraKeys_not_reserved)
  have keys: "map fst obj = [''ts'', ''lv'', ''caller'', ''msg''] @ extraKeys ?e @ map fst ?err"
    by (simp add: obj comp_def)
  have dist: "distinct (map fst obj)"
  proof -
    have "distinct (extraKeys ?e)" by (simp add: extraKeys_distinct Extra_distinct)
    moreover have "''ts'' \<notin> set (extraKeys ?e)" "''lv'' \<notin> set (extraKeys ?e)"
      "''caller'' \<notin> set (extraKeys ?e)" "''msg'' \<notin> set (extraKeys ?e)"
      "''err'' \<notin> set (extraKeys ?e)"
      using nr by (auto simp add: reservedKey_def)
    ultimately show ?thesis
      unfolding keys by (cases "errField (parseArgs args)") simp_all
  qed
  have flt: "filter (\<lambda>(k, v). reservedKey k) obj = ?fixed @ ?err"
  proof -
    have "filter (\<lambda>(k, v). reservedKey k) ?fixed = ?fixed" by (simp add: reservedKey_def)
    moreover have "filter (\<lambda>(k, v). reservedKey k) ?err = ?err"
      by (cases "errField (parseArgs args)") (simp_all add: reservedKey_def)
    ultimately show ?thesis
      unfolding obj filter_append filter_keyed_reserved by simp
  qed
  have look: "map_of obj k = Some (mapIndex (Extra ?e) k)" if "k \<in> set (extraKeys ?e)" for k
  proof -
    from that nr have "\<not> reservedKey k" by blast
    then have "map_of ?fixed k = None" by (simp add: reservedKey_def)
    then have "map_of obj k = map_of (?mid @ ?err) k"
      unfolding obj by (simp only: map_of_append map_add_def split: option.split) simp
    with that show ?thesis by (simp only: map_of_keyed)
  qed
  have data: "dataJSON (parseArgs args) \<noteq> [] \<longrightarrow>
          map_of obj ''data'' =
            Some (case dataJSON (parseArgs args) of
                    [d] \<Rightarrow> mustUnmarshalAny d
                  | ds \<Rightarrow> VSlice (map mustUnmarshalAny ds))"
  proof
    assume d: "dataJSON (parseArgs args) \<noteq> []"
    then have "''data'' \<in> fst ` set (Extra ?e)" by (simp add: Extra_keys)
    then have "''data'' \<in> set (extraKeys ?e)"
      by (rule extraKeys_mem) (simp add: reservedKey_def)
    then have "map_of obj ''data'' = Some (mapIndex (Extra ?e) ''data'')" by (rule look)
    then show "map_of obj ''data'' =
            Some (case dataJSON (parseArgs args) of
                    [d] \<Rightarrow> mustUnmarshalAny d
                  | ds \<Rightarrow> VSlice (map mustUnmarshalAny ds))"
      by (simp add: mapIndex_def Extra_data [OF d])
  qed
  have args: "extra (parseArgs args) \<noteq> [] \<longrightarrow>
          map_of obj ''args'' = Some (VSlice (extra (parseArgs args)))"
  proof
    assume x: "extra (parseArgs args) \<noteq> []"
    then have "''args'' \<in> fst ` set (Extra ?e)" by (simp add: Extra_keys)
    then have "''args'' \<in> set (extraKeys ?e)"
      by (rule extraKeys_mem) (simp add: reservedKey_def)
    then have "map_of obj ''args'' = Some (mapIndex (Extra ?e) ''args'')" by (rule look)
    then show "map_of obj ''args'' = Some (VSlice (extra (parseArgs args)))"
      by (simp add: mapIndex_def Extra_args [OF x])
  qed
  from dist flt data args
  show "distinct (map fst obj)
     \<and> filter (\<lambda>(k, v). reservedKey k) obj = ?fixed @ ?err
     \<and> (dataJSON (parseArgs args) \<noteq> [] \<longrightarrow>
          map_of obj ''data'' =
            Some (case dataJSON (parseArgs args) of
                    [d] \<Rightarrow> mustUnmarshalAny d
                  | ds \<Rightarrow> VSlice (map mustUnmarshalAny ds)))
     \<and> (extra (parseArgs args) \<noteq> [] \<longrightarrow>
          map_of obj ''args'' = Some (VSlice (extra (parseArgs args))))"
    by blast
qed

text \<open>
  A call with the fields \<open>ts\<close>, \<open>data\<close>, \<open>args\<close> and \<open>err\<close>, one raw-data blob and two
  leftovers, and no trailing error.
\<close>

theorem reserved_and_synthetic_keys_witness:
  "parseArgs [VStr ''m'', VStr ''ts'', VInt 1, VStr ''data'', VInt 2, VStr ''args:'', VInt 3,
              VInt 7, VInt 8, VStr '' 1 '', VStr ''err'', VInt 9] =
     \<lparr>msg = VStr ''m'',
      fieldMap = [(''ts'', VInt 1), (''data'', VInt 2), (''args'', VInt 3), (''err'', VInt 9)],
      dataJSON = [''1''], errField = None, extra = [VInt 7, VInt 8]\<rparr>
   \<and> jsonMarshalEntry (buildJSONEntry ''2026-01-02 03:04:05'' WARN ''main.go:7''
        [VStr ''m'', VStr ''ts'', VInt 1, VStr ''data'', VInt 2, VStr ''args:'', VInt 3,
         VInt 7, VInt 8, VStr '' 1 '', VStr ''err'', VInt 9]) =
      Inr [(''ts'', VStr ''2026-01-02 03:04:05''), (''lv'', VStr ''WARN''),
           (''caller'', VStr ''main.go:7''), (''msg'', VStr ''m''),
           (''args'', VSlice [VInt 7, VInt 8]), (''data'', VJSON ''1'')]
   \<and> filter (\<lambda>(k, v). reservedKey k)
        [(''ts'', VStr ''2026-01-02 03:04:05''), (''lv'', VStr ''WARN''),
         (''caller'', VStr ''main.go:7''), (''msg'', VStr ''m''),
         (''args'', VSlice [VInt 7, VInt 8]), (''data'', VJSON ''1'')] =
      [(''ts'', VStr ''2026-01-02 03:04:05''), (''lv'', VStr ''WARN''),
       (''caller'', VStr ''main.go:7''), (''msg'', VStr ''m'')]
   \<and> map_of [(''ts'', VStr ''2026-01-02 03:04:05''), (''lv'', VStr ''WARN''),
         (''caller'', VStr ''main.go:7''), (''msg'', VStr ''m''),
         (''args'', VSlice [VInt 7, VInt 8]), (''data'', VJSON ''1'')] ''data'' = Some (VJSON ''1'')
   \<and> map_of [(''ts'', VStr ''2026-01-02 03:04:05''), (''lv'', VStr ''WARN''),
         (''caller'', VStr ''main.go:7''), (''msg'', VStr ''m''),
         (''args'', VSlice [VInt 7, VInt 8]), (''data'', VJSON ''1'')] ''args''
       = Some (VSlice [VInt 7, VInt 8])"
proof -
  let ?args = "[VStr ''m'', VStr ''ts'', VInt 1, VStr ''data'', VInt 2, VStr ''args:'', VInt 3,
              VInt 7, VInt 8, VStr '' 1 '', VStr ''err'', VInt 9]"
  let ?b = "[(''ts'', VStr ''2026-01-02 03:04:05''), (''lv'', VStr ''WARN''),
           (''caller'', VStr ''main.go:7''), (''msg'', VStr ''m''),
           (''args'', VSlice [VInt 7, VInt 8]), (''data'', VJSON ''1'')]"
  have p: "parseArgs ?args =
     \<lparr>msg = VStr ''m'',
      fieldMap = [(''ts'', VInt 1), (''data'', VInt 2), (''args'', VInt 3), (''err'', VInt 9)],
      dataJSON = [''1''], errField = None, extra = [VInt 7, VInt 8]\<rparr>"
    by code_simp
  have m: "jsonMarshalEntry (buildJSONEntry ''2026-01-02 03:04:05'' WARN ''main.go:7'' ?args) = Inr ?b"
    by code_simp
  have u: "mustUnmarshalAny ''1'' = VJSON ''1''" "parseJSONIfString (VStr ''m'') = VStr ''m''"
    by code_simp+
  from reserved_and_synthetic_keys
    [of "''2026-01-02 03:04:05''" WARN "''main.go:7''" ?args ?b] m
  have "filter (\<lambda>(k, v). reservedKey k) ?b =
         [(''ts'', VStr ''2026-01-02 03:04:05''), (''lv'', VStr (Level_String WARN)),
          (''caller'', VStr ''main.go:7''), (''msg'', parseJSONIfString (msg (parseArgs ?args)))]
         @ (case errField (parseArgs ?args) of None \<Rightarrow> [] | Some e \<Rightarrow> [(''err'', VStr e)])
     \<and> (dataJSON (parseArgs ?args) \<noteq> [] \<longrightarrow>
          map_of ?b ''data'' =
            Some (case dataJSON (parseArgs ?args) of
                    [d] \<Rightarrow> mustUnmarshalAny d
                  | ds \<Rightarrow> VSlice (map mustUnmarshalAny ds)))
     \<and> (extra (parseArgs ?args) \<noteq> [] \<longrightarrow>
          map_of ?b ''args'' = Some (VSlice (extra (parseArgs ?args))))"
    by blast
  then have "filter (\<lambda>(k, v). reservedKey k) ?b =
         [(''ts'', VStr ''2026-01-02 03:04:05''), (''lv'', VStr ''WARN''),
          (''caller'', VStr ''main.go:7''), (''msg'', VStr ''m'')]
     \<and> map_of ?b ''data'' = Some (VJSON ''1'')
     \<and> map_of ?b ''args'' = Some (VSlice [VInt 7, VInt 8])"
    unfolding p by (simp add: u)
  with p m show ?thesis by blast
qed

section \<open>Properties of the decoder and the encoder\<close>










































lemma skipSpace_id: "s \<noteq> [] \<Longrightarrow> \<not> isSpace (hd s) \<Longrightarrow> skipSpace (s @ r) = s @ r"
  by (cases s) (simp_all add: skipSpace_def)






























section \<open>Properties of the log call\<close>

text \<open>
  C7. A call at level \<open>lv\<close> under the threshold \<open>level c\<close> prints a line exactly when the
  rank of \<open>lv\<close> is at least the rank of the threshold, and it does nothing at all (no caller
  resolution, no classification, no encoding) exactly when the rank is below. Under the
  threshold INFO, a DEBUG call does nothing and INFO, WARN and ERROR calls print.
\<close>

theorem logWithCaller_level_filter:
  "(logWithCaller now caller c lv args = []) = (rank lv < rank (level c))
   \<and> ((\<exists>ln. Println ln \<in> set (logWithCaller now caller c lv args)) = (rank (level c) \<le> rank lv))
   \<and> logWithCaller now caller (c\<lparr>level := INFO\<rparr>) DEBUG args = []
   \<and> (\<exists>ln. Println ln \<in> set (logWithCaller now caller (c\<lparr>level := INFO\<rparr>) INFO args))
   \<and> (\<exists>ln. Println ln \<in> set (logWithCaller now caller (c\<lparr>level := INFO\<rparr>) WARN args))
   \<and> (\<exists>ln. Println ln \<in> set (logWithCaller now caller (c\<lparr>level := INFO\<rparr>) ERROR args))"
  by (auto simp add: logWithCaller_def enabled_def split: sum.split)

end
